theory Spec2Isabelle
  imports Complex_Main
begin

section \<open>Tensors and the backend operations used by eval_utils.py\<close>

text \<open>
  The module computes with Keras/TensorFlow tensors. The embedding keeps what the
  metrics depend on:
  \<^item> a 2D tensor of shape (batch, N) is its list of rows together with N, so that
    the shape of an empty batch is still known;
  \<^item> arithmetic on finite values is exact (\<open>real\<close>); float32 rounding is not modelled
    (in float32 \<open>eps + m\<close> is m itself for a sum m \<ge> 2, where the model keeps eps);
  \<^item> the only operation that can leave the finite values is division, whose
    result is an \<open>fval\<close>: dividing by zero gives an infinity or NaN, as IEEE
    division does, and never raises;
  \<^item> elementwise binary operations broadcast (an axis of size 1 is stretched) and
    fail with \<open>InvalidArgument\<close> when the shapes are incompatible;
  \<^item> \<open>K.reshape\<close> with one inferred dimension fails with \<open>InvalidArgument\<close> when
    the number of elements is not a multiple of the requested sizes.
\<close>

datatype error = InvalidArgument

datatype fval = Fin real | PInf | NInf | NaN

datatype 'a tensor = Tensor (ncols: nat) (rows: "'a list list")

definition nrows :: "'a tensor \<Rightarrow> nat" where
  "nrows t = length (rows t)"

text \<open>A tensor value is well formed when every row has the declared width.\<close>

definition wf_tensor :: "'a tensor \<Rightarrow> bool" where
  "wf_tensor t = list_all (\<lambda>r. length r = ncols t) (rows t)"

definition same_shape :: "'a tensor \<Rightarrow> 'b tensor \<Rightarrow> bool" where
  "same_shape a b = (nrows a = nrows b \<and> ncols a = ncols b)"

definition bindE :: "error + 'a \<Rightarrow> ('a \<Rightarrow> error + 'b) \<Rightarrow> error + 'b" where
  "bindE m f = (case m of Inl e \<Rightarrow> Inl e | Inr x \<Rightarrow> f x)"

text \<open>Broadcasting of one axis: equal sizes, or one of them is 1.\<close>

definition bdim :: "nat \<Rightarrow> nat \<Rightarrow> nat option" where
  "bdim m n = (if m = n then Some m else if m = 1 then Some n
               else if n = 1 then Some m else None)"

text \<open>An axis of size 1 is stretched to the broadcast size; any other axis already has it.\<close>

definition stretch :: "nat \<Rightarrow> 'a list \<Rightarrow> 'a list" where
  "stretch n xs = (case xs of [x] \<Rightarrow> replicate n x | _ \<Rightarrow> xs)"

definition broadcast_to :: "nat \<Rightarrow> nat \<Rightarrow> 'a tensor \<Rightarrow> 'a list list" where
  "broadcast_to r c t = stretch r (map (stretch c) (rows t))"

definition binop :: "('a \<Rightarrow> 'b \<Rightarrow> 'c) \<Rightarrow> 'a tensor \<Rightarrow> 'b tensor \<Rightarrow> error + 'c tensor" where
  "binop f a b =
     (case (bdim (nrows a) (nrows b), bdim (ncols a) (ncols b)) of
        (Some r, Some c) \<Rightarrow>
          Inr (Tensor c (map2 (map2 f) (broadcast_to r c a) (broadcast_to r c b)))
      | _ \<Rightarrow> Inl InvalidArgument)"

text \<open>\<open>a * b\<close>, \<open>a + b\<close> and \<open>a - b\<close> on tensors.\<close>

definition t_mul :: "real tensor \<Rightarrow> real tensor \<Rightarrow> error + real tensor" where
  "t_mul a b = binop (*) a b"

definition t_add :: "real tensor \<Rightarrow> real tensor \<Rightarrow> error + real tensor" where
  "t_add a b = binop (+) a b"

definition t_sub :: "real tensor \<Rightarrow> real tensor \<Rightarrow> error + real tensor" where
  "t_sub a b = binop (-) a b"

text \<open>\<open>K.greater(x, s)\<close> against a Python scalar, and \<open>K.cast(., "float32")\<close> of the result.\<close>

definition K_greater :: "real tensor \<Rightarrow> real \<Rightarrow> bool tensor" where
  "K_greater x s = Tensor (ncols x) (map (map (\<lambda>v. s < v)) (rows x))"

definition K_cast :: "bool tensor \<Rightarrow> real tensor" where
  "K_cast x = Tensor (ncols x) (map (map of_bool) (rows x))"

text \<open>\<open>K.sum(x, axis=1)\<close> of a 2D tensor: one sum per row.\<close>

definition K_sum1 :: "real tensor \<Rightarrow> real list" where
  "K_sum1 x = map sum_list (rows x)"

text \<open>
  \<open>K.epsilon()\<close> is the fuzz factor of the Keras backend; the module never sets it, so
  it has the library's default, 1e-7.
\<close>

definition K_epsilon :: real where
  "K_epsilon = 1 / 10000000"

text \<open>Floating-point division of finite values: no error, a non-finite result at zero.\<close>

definition fdiv :: "real \<Rightarrow> real \<Rightarrow> fval" where
  "fdiv a b = (if b \<noteq> 0 then Fin (a / b)
               else if 0 < a then PInf else if a < 0 then NInf else NaN)"

text \<open>
  Elementwise division of two 1D tensors. In every use below both operands are row
  sums of tensors of one broadcast shape, so they have the same length.
\<close>

definition v_div :: "real list \<Rightarrow> real list \<Rightarrow> fval list" where
  "v_div xs ys = map2 fdiv xs ys"

fun fadd :: "fval \<Rightarrow> fval \<Rightarrow> fval" where
  "fadd (Fin a) (Fin b) = Fin (a + b)"
| "fadd NaN _ = NaN"
| "fadd _ NaN = NaN"
| "fadd PInf NInf = NaN"
| "fadd NInf PInf = NaN"
| "fadd PInf _ = PInf"
| "fadd _ PInf = PInf"
| "fadd NInf _ = NInf"
| "fadd _ NInf = NInf"

fun fdiv_count :: "fval \<Rightarrow> nat \<Rightarrow> fval" where
  "fdiv_count (Fin s) n = fdiv s (real n)"
| "fdiv_count PInf n = PInf"
| "fdiv_count NInf n = NInf"
| "fdiv_count NaN n = NaN"

text \<open>
  \<open>K.mean\<close> of a 1D tensor: the sum divided by the number of elements. On an empty
  tensor that is 0/0, which is NaN.
\<close>

definition K_mean :: "fval list \<Rightarrow> fval" where
  "K_mean vs = fdiv_count (foldl fadd (Fin 0) vs) (length vs)"

section \<open>The metrics\<close>

definition iou :: "real tensor \<Rightarrow> real tensor \<Rightarrow> real \<Rightarrow> error + fval" where
  "iou y_true y_pred heatmap_threshold =
     (let pred = K_cast (K_greater y_pred heatmap_threshold) in
      bindE (t_mul y_true pred) (\<lambda>intersection.
      bindE (t_add y_true pred) (\<lambda>s.
        let union = K_cast (K_greater s 0);
            iou_values = v_div (K_sum1 intersection)
                               (map (\<lambda>u. K_epsilon + u) (K_sum1 union))
        in Inr (K_mean iou_values))))"

definition precision :: "real tensor \<Rightarrow> real tensor \<Rightarrow> real \<Rightarrow> error + fval" where
  "precision y_true y_pred heatmap_threshold =
     (let pred = K_cast (K_greater y_pred heatmap_threshold) in
      bindE (t_mul y_true pred) (\<lambda>prod.
        let tp = K_sum1 prod in
        bindE (t_sub pred y_true) (\<lambda>diff.
          let fp = K_sum1 (K_cast (K_greater diff 0));
              precision_values = v_div tp (map2 (\<lambda>a b. a + b + K_epsilon) tp fp)
          in Inr (K_mean precision_values))))"

definition recall :: "real tensor \<Rightarrow> real tensor \<Rightarrow> real \<Rightarrow> error + fval" where
  "recall y_true y_pred heatmap_threshold =
     (let pred = K_cast (K_greater y_pred heatmap_threshold) in
      bindE (t_mul y_true pred) (\<lambda>prod.
        let tp = K_sum1 prod in
        bindE (t_sub y_true pred) (\<lambda>diff.
          let fn = K_sum1 (K_cast (K_greater diff 0));
              recall_values = v_div tp (map2 (\<lambda>a b. a + b + K_epsilon) tp fn)
          in Inr (K_mean recall_values))))"

text \<open>\<open>K.greater(iou_values, 0.5)\<close> on division results: NaN compares false.\<close>

definition fgreater :: "fval \<Rightarrow> real \<Rightarrow> bool" where
  "fgreater v s = (case v of Fin x \<Rightarrow> s < x | PInf \<Rightarrow> True | NInf \<Rightarrow> False | NaN \<Rightarrow> False)"

definition iou_acc :: "real tensor \<Rightarrow> real tensor \<Rightarrow> real \<Rightarrow> error + fval" where
  "iou_acc y_true y_pred heatmap_threshold =
     (let pred = K_cast (K_greater y_pred heatmap_threshold) in
      bindE (t_mul y_true pred) (\<lambda>intersection.
      bindE (t_add y_true pred) (\<lambda>s.
        let union = K_cast (K_greater s 0);
            iou_values = v_div (K_sum1 intersection)
                               (map (\<lambda>u. K_epsilon + u) (K_sum1 union));
            acc = map (\<lambda>v. Fin (of_bool (fgreater v (1 / 2)))) iou_values
        in Inr (K_mean acc))))"

subsection \<open>The bounding-box metric\<close>

text \<open>A 3D tensor of shape (b, d, d) is the list of its b matrices, each a list of rows.\<close>

function chunks :: "nat \<Rightarrow> 'a list \<Rightarrow> 'a list list" where
  "chunks n xs = (if n = 0 \<or> xs = [] then [] else take n xs # chunks n (drop n xs))"
  by pat_completeness auto
termination
  by (relation "measure (\<lambda>(n, xs). length xs)") auto

declare chunks.simps [simp del]

text \<open>
  \<open>K.reshape(x, (-1, d, d))\<close>: the elements in row-major order, cut into matrices of
  d rows of d cells. The first dimension is inferred, which needs d * d to be
  nonzero and to divide the number of elements.
\<close>

definition K_reshape3 :: "'a tensor \<Rightarrow> nat \<Rightarrow> error + 'a list list list" where
  "K_reshape3 x d =
     (let flat = concat (rows x) in
      if d * d = 0 \<or> length flat mod (d * d) \<noteq> 0 then Inl InvalidArgument
      else Inr (map (chunks d) (chunks (d * d) flat)))"

text \<open>\<open>K.reshape(x, (-1, n))\<close> of a 3D tensor.\<close>

definition K_reshape2 :: "'a list list list \<Rightarrow> nat \<Rightarrow> error + 'a tensor" where
  "K_reshape2 x n =
     (let flat = concat (map concat x) in
      if n = 0 \<or> length flat mod n \<noteq> 0 then Inl InvalidArgument
      else Inr (Tensor n (chunks n flat)))"

text \<open>
  \<open>K.sum(x, axis=1, keepdims=True)\<close>: per matrix the column sums, kept as one row;
  \<open>K.sum(x, axis=2, keepdims=True)\<close>: per matrix the row sums, kept as one column.
  The matrices come from \<open>K_reshape3\<close>, so they have d \<ge> 1 rows of d cells.
\<close>

definition K_sum3_axis1 :: "real list list list \<Rightarrow> real list list list" where
  "K_sum3_axis1 x = map (\<lambda>m. [map sum_list (transpose m)]) x"

definition K_sum3_axis2 :: "real list list list \<Rightarrow> real list list list" where
  "K_sum3_axis2 x = map (map (\<lambda>r. [sum_list r])) x"

definition K_greater3 :: "real list list list \<Rightarrow> real \<Rightarrow> bool list list list" where
  "K_greater3 x s = map (map (map (\<lambda>v. s < v))) x"

definition K_cast3 :: "bool list list list \<Rightarrow> real list list list" where
  "K_cast3 x = map (map (map of_bool)) x"

text \<open>\<open>K.repeat_elements(x, rep, axis)\<close>: every slice along the axis is repeated rep times.\<close>

definition K_repeat_elements_axis1 :: "'a list list list \<Rightarrow> nat \<Rightarrow> 'a list list list" where
  "K_repeat_elements_axis1 x rep = map (\<lambda>m. concat (map (replicate rep) m)) x"

definition K_repeat_elements_axis2 :: "'a list list list \<Rightarrow> nat \<Rightarrow> 'a list list list" where
  "K_repeat_elements_axis2 x rep = map (map (\<lambda>r. concat (map (replicate rep) r))) x"

text \<open>The product of two 3D tensors of one shape (both masks are (b, d, d)).\<close>

definition t_mul3 :: "real list list list \<Rightarrow> real list list list \<Rightarrow> real list list list" where
  "t_mul3 a b = map2 (map2 (map2 (*))) a b"

text \<open>Lines 140 to 149 of \<open>iou_bbox\<close>: the mask, as a tensor of shape (-1, d * d).\<close>

definition iou_bbox_mask :: "real tensor \<Rightarrow> real \<Rightarrow> nat \<Rightarrow> error + real tensor" where
  "iou_bbox_mask y_pred heatmap_threshold input_dim =
     (let pred = K_cast (K_greater y_pred heatmap_threshold) in
      bindE (K_reshape3 pred input_dim) (\<lambda>pred.
        let horiz = K_sum3_axis1 pred;
            horiz = K_cast3 (K_greater3 horiz 0);
            mask_horiz = K_repeat_elements_axis1 horiz input_dim;
            vert = K_sum3_axis2 pred;
            vert = K_cast3 (K_greater3 vert 0);
            mask_vert = K_repeat_elements_axis2 vert input_dim;
            mask = t_mul3 mask_vert mask_horiz
        in K_reshape2 mask (input_dim * input_dim)))"

text \<open>Lines 150 to 153 follow, as in \<open>iou\<close> with the mask in place of the prediction.\<close>

definition iou_bbox :: "real tensor \<Rightarrow> real tensor \<Rightarrow> real \<Rightarrow> nat \<Rightarrow> error + fval" where
  "iou_bbox y_true y_pred heatmap_threshold input_dim =
     bindE (iou_bbox_mask y_pred heatmap_threshold input_dim) (\<lambda>mask.
     bindE (t_mul y_true mask) (\<lambda>intersection.
     bindE (t_add y_true mask) (\<lambda>s.
       let union = K_cast (K_greater s 0);
           iou_values = v_div (K_sum1 intersection)
                              (map (\<lambda>u. K_epsilon + u) (K_sum1 union))
       in Inr (K_mean iou_values))))"

section \<open>The metric factory and the report line\<close>

text \<open>
  A metric function is a closure with a \<open>__name__\<close>. \<open>str(thresh)\<close> is Python's
  rendering of the threshold; it is a parameter of the model.
\<close>

record metric =
  name :: string
  func :: "real tensor \<Rightarrow> real tensor \<Rightarrow> error + fval"

type_synonym metric_func = "string \<times> (real tensor \<Rightarrow> real tensor \<Rightarrow> real \<Rightarrow> error + fval)"

definition get_metrics :: "(real \<Rightarrow> string) \<Rightarrow> nat \<Rightarrow> real list \<Rightarrow> metric list" where
  "get_metrics str input_dim heatmap_threshold =
     (let metrics = [];
          iou_bbox_metric = (''iou_bbox'', \<lambda>gt pred t. iou_bbox gt pred t input_dim)
      in foldl (\<lambda>metrics (metric_func :: metric_func).
                  foldl (\<lambda>metrics thresh.
                           metrics @ [\<lparr>name = fst metric_func @ ''_'' @ str thresh,
                                       func = (\<lambda>gt pred. snd metric_func gt pred thresh)\<rparr>])
                        metrics heatmap_threshold)
               metrics
               [(''iou'', iou), (''precision'', precision), (''recall'', recall),
                (''iou_acc'', iou_acc), iou_bbox_metric])"

text \<open>
  \<open>'%2.3f' % scalar\<close>: the value rounded to the nearest multiple of 1/1000 (a tie goes
  to the even one), printed with a sign when negative, the integer part in decimal,
  a point and three digits. The minimal width 2 never pads.
\<close>

definition round_half_even :: "real \<Rightarrow> int" where
  "round_half_even y =
     (let f = \<lfloor>y\<rfloor>; r = y - of_int f in
      if r < 1 / 2 then f else if 1 / 2 < r then f + 1
      else if even f then f else f + 1)"

definition digit :: "nat \<Rightarrow> char" where
  "digit n = ''0123456789'' ! n"

fun decimal :: "nat \<Rightarrow> string" where
  "decimal n = (if n < 10 then [digit n] else decimal (n div 10) @ [digit (n mod 10)])"

definition fmt_2_3f :: "real \<Rightarrow> string" where
  "fmt_2_3f x =
     (let m = nat (round_half_even (\<bar>x\<bar> * 1000)) in
      (if x < 0 then ''-'' else []) @ decimal (m div 1000) @ ''.'' @
      [digit (m div 100 mod 10), digit (m div 10 mod 10), digit (m mod 10)])"

fun join :: "string \<Rightarrow> string list \<Rightarrow> string" where
  "join sep [] = []"
| "join sep [x] = x"
| "join sep (x # y # ys) = x @ sep @ join sep (y # ys)"

definition format_results :: "string list \<Rightarrow> real list \<Rightarrow> error + string" where
  "format_results names scalars =
     (let res = foldl (\<lambda>res (name, scalar). res @ [name @ '': '' @ fmt_2_3f scalar])
                      [] (zip names scalars)
      in Inr (join '', '' res))"

section \<open>Reference definitions, following the specification\<close>

text \<open>The mean over the batch of finite per-instance values; undefined (NaN) on no instance.\<close>

definition batch_mean :: "real list \<Rightarrow> fval" where
  "batch_mean vs = (if vs = [] then NaN else Fin (sum_list vs / real (length vs)))"

text \<open>\<open>binarized = 1 if pred > threshold else 0\<close>, for one instance.\<close>

definition binarize :: "real \<Rightarrow> real list \<Rightarrow> real list" where
  "binarize t p = map (\<lambda>v. of_bool (t < v)) p"

text \<open>
  Per-instance IoU of a mask b against the ground truth g:
  \<open>sum(g * b) / (sum((g + b) > 0) + eps)\<close>.
\<close>

definition iou_of_mask :: "real list \<Rightarrow> real list \<Rightarrow> real" where
  "iou_of_mask g b =
     sum_list (map2 (*) g b) / (sum_list (map2 (\<lambda>x y. of_bool (0 < x + y)) g b) + K_epsilon)"

definition iou_instance :: "real \<Rightarrow> real list \<Rightarrow> real list \<Rightarrow> real" where
  "iou_instance t g p = iou_of_mask g (binarize t p)"

text \<open>\<open>tp / (tp + fp + eps)\<close> with \<open>tp = sum(g * b)\<close> and \<open>fp = sum(max(b - g, 0))\<close>.\<close>

definition precision_instance :: "real \<Rightarrow> real list \<Rightarrow> real list \<Rightarrow> real" where
  "precision_instance t g p =
     (let b = binarize t p;
          tp = sum_list (map2 (*) g b);
          fp = sum_list (map2 (\<lambda>y x. max (y - x) 0) b g)
      in tp / (tp + fp + K_epsilon))"

text \<open>\<open>tp / (tp + fn + eps)\<close> with \<open>fn = sum(max(g - b, 0))\<close>.\<close>

definition recall_instance :: "real \<Rightarrow> real list \<Rightarrow> real list \<Rightarrow> real" where
  "recall_instance t g p =
     (let b = binarize t p;
          tp = sum_list (map2 (*) g b);
          fn = sum_list (map2 (\<lambda>x y. max (x - y) 0) g b)
      in tp / (tp + fn + K_epsilon))"

text \<open>A ground truth with values in {0, 1}.\<close>

definition binary_tensor :: "real tensor \<Rightarrow> bool" where
  "binary_tensor x = list_all (list_all (\<lambda>v. v = 0 \<or> v = 1)) (rows x)"

subsection \<open>The d by d grid of one instance\<close>

text \<open>Cell (i, j) of the grid is element i * d + j of the flattened instance.\<close>

definition positive :: "nat \<Rightarrow> real \<Rightarrow> real list \<Rightarrow> nat \<Rightarrow> nat \<Rightarrow> bool" where
  "positive d t p i j = (t < p ! (i * d + j))"

definition row_active :: "nat \<Rightarrow> real \<Rightarrow> real list \<Rightarrow> nat \<Rightarrow> bool" where
  "row_active d t p i = list_ex (\<lambda>j. positive d t p i j) [0..<d]"

definition col_active :: "nat \<Rightarrow> real \<Rightarrow> real list \<Rightarrow> nat \<Rightarrow> bool" where
  "col_active d t p j = list_ex (\<lambda>i. positive d t p i j) [0..<d]"

text \<open>A cell is 1 iff both its row and its column are active.\<close>

definition proj_mask :: "nat \<Rightarrow> real \<Rightarrow> real list \<Rightarrow> real list" where
  "proj_mask d t p =
     concat (map (\<lambda>i. map (\<lambda>j. of_bool (row_active d t p i \<and> col_active d t p j)) [0..<d])
                 [0..<d])"

text \<open>
  The smallest axis-aligned rectangle covering the predicted-positive cells: the rows
  from the first to the last active row, and the columns from the first to the last
  active column.
\<close>

definition in_bounding_box :: "nat \<Rightarrow> real \<Rightarrow> real list \<Rightarrow> nat \<Rightarrow> nat \<Rightarrow> bool" where
  "in_bounding_box d t p i j =
     (list_ex (row_active d t p) [0..<Suc i] \<and> list_ex (row_active d t p) [i..<d] \<and>
      list_ex (col_active d t p) [0..<Suc j] \<and> list_ex (col_active d t p) [j..<d])"

definition rect_mask :: "nat \<Rightarrow> real \<Rightarrow> real list \<Rightarrow> real list" where
  "rect_mask d t p =
     concat (map (\<lambda>i. map (\<lambda>j. of_bool (in_bounding_box d t p i j)) [0..<d]) [0..<d])"

text \<open>The active rows (columns) have no gap.\<close>

definition contiguous :: "nat \<Rightarrow> (nat \<Rightarrow> bool) \<Rightarrow> bool" where
  "contiguous d a =
     list_all (\<lambda>i. list_ex a [0..<Suc i] \<and> list_ex a [i..<d] \<longrightarrow> a i) [0..<d]"

text \<open>
  The binarized instance is a solid rectangle: the cells of rows r0 to r1 - 1 and
  columns c0 to c1 - 1 and no other (empty when r1 \<le> r0 or c1 \<le> c0).
\<close>

definition is_rect :: "nat \<Rightarrow> real \<Rightarrow> real list \<Rightarrow> nat \<Rightarrow> nat \<Rightarrow> nat \<Rightarrow> nat \<Rightarrow> bool" where
  "is_rect d t p r0 r1 c0 c1 =
     list_all (\<lambda>i. list_all (\<lambda>j. positive d t p i j = (r0 \<le> i \<and> i < r1 \<and> c0 \<le> j \<and> j < c1))
                             [0..<d]) [0..<d]"

definition solid_rectangle :: "nat \<Rightarrow> real \<Rightarrow> real list \<Rightarrow> bool" where
  "solid_rectangle d t p =
     list_ex (\<lambda>r0. list_ex (\<lambda>r1. list_ex (\<lambda>c0. list_ex (\<lambda>c1. is_rect d t p r0 r1 c0 c1)
       [0..<Suc d]) [0..<Suc d]) [0..<Suc d]) [0..<Suc d]"

section \<open>Backend operations: basic facts\<close>

lemma K_epsilon_pos: "0 < K_epsilon"
  by (simp add: K_epsilon_def)

lemma stretch_id: "length xs = n \<Longrightarrow> stretch n xs = xs"
  by (cases xs rule: list.exhaust; cases "tl xs") (auto simp: stretch_def split: list.splits)

lemma bdim_same: "bdim n n = Some n"
  by (simp add: bdim_def)

lemma map_stretch_id:
  assumes "wf_tensor x" "ncols x = c"
  shows "map (stretch c) (rows x) = rows x"
proof (rule map_idI)
  fix r assume "r \<in> set (rows x)"
  with assms have "length r = c"
    by (simp add: wf_tensor_def list_all_iff)
  then show "stretch c r = r"
    by (rule stretch_id)
qed

lemma broadcast_to_id:
  assumes "wf_tensor x" "ncols x = c" "nrows x = r"
  shows "broadcast_to r c x = rows x"
  using assms(3) by (simp add: broadcast_to_def map_stretch_id[OF assms(1,2)] stretch_id nrows_def)

lemma binop_same_shape:
  assumes "wf_tensor a" "wf_tensor b" "same_shape a b"
  shows "binop f a b = Inr (Tensor (ncols a) (map2 (map2 f) (rows a) (rows b)))"
proof -
  have s: "nrows b = nrows a" "ncols b = ncols a"
    using assms(3) by (simp_all add: same_shape_def)
  have "broadcast_to (nrows a) (ncols a) a = rows a"
    by (rule broadcast_to_id[OF assms(1)]) simp_all
  moreover have "broadcast_to (nrows a) (ncols a) b = rows b"
    by (rule broadcast_to_id[OF assms(2) s(2) s(1)])
  ultimately show ?thesis
    by (simp add: binop_def s bdim_same)
qed

lemma foldl_fadd_Fin: "foldl fadd (Fin a) (map Fin vs) = Fin (a + sum_list vs)"
  by (induction vs arbitrary: a) (simp_all add: add.assoc)

lemma K_mean_Fin: "K_mean (map Fin vs) = batch_mean vs"
  by (simp add: K_mean_def foldl_fadd_Fin fdiv_def batch_mean_def)

lemma sum_of_bool_nonneg: "0 \<le> sum_list (map (\<lambda>x. of_bool (P x) :: real) xs)"
  by (induction xs) simp_all

lemma iou_row:
  "fdiv (sum_list (map2 (*) g b))
        (K_epsilon + sum_list (map (\<lambda>v. of_bool (0 < v)) (map2 (+) g b)))
   = Fin (iou_of_mask g b)"
proof -
  have e: "map (\<lambda>v. of_bool (0 < v)) (map2 (+) g b) = map2 (\<lambda>x y. of_bool (0 < x + y) :: real) g b"
    by (induction g b rule: list_induct2') simp_all
  have "0 \<le> sum_list (map (\<lambda>v. of_bool (0 < v) :: real) (map2 (+) g b))"
    by (rule sum_of_bool_nonneg)
  then have "K_epsilon + sum_list (map (\<lambda>v. of_bool (0 < v) :: real) (map2 (+) g b)) \<noteq> 0"
    using K_epsilon_pos by linarith
  then show ?thesis
    unfolding e by (simp add: fdiv_def iou_of_mask_def add.commute)
qed

lemma iou_values_eq:
  "length G = length M \<Longrightarrow>
   v_div (map sum_list (map2 (map2 (*)) G M))
         (map (\<lambda>u. K_epsilon + u)
              (map sum_list (map (map (\<lambda>v. of_bool (0 < v))) (map2 (map2 (+)) G M))))
   = map Fin (map2 iou_of_mask G M)"
proof (induction G M rule: list_induct2)
  case Nil
  show ?case by (simp add: v_div_def)
next
  case (Cons g G b M)
  then show ?case
    using iou_row[of g b] by (simp add: v_div_def)
qed

lemma K_sum1_cast_greater:
  "K_sum1 (K_cast (K_greater x s)) = map sum_list (map (map (\<lambda>v. of_bool (s < v))) (rows x))"
  by (simp add: K_sum1_def K_cast_def K_greater_def o_def)

lemma iou_tail:
  assumes "wf_tensor gt" "wf_tensor m" "same_shape gt m"
  shows "bindE (t_mul gt m) (\<lambda>intersection.
         bindE (t_add gt m) (\<lambda>s.
           Inr (K_mean (v_div (K_sum1 intersection)
                  (map (\<lambda>u. K_epsilon + u) (K_sum1 (K_cast (K_greater s 0))))))))
       = Inr (batch_mean (map2 iou_of_mask (rows gt) (rows m)))"
proof -
  have len: "length (rows gt) = length (rows m)"
    using assms(3) by (simp add: same_shape_def nrows_def)
  have "bindE (t_mul gt m) (\<lambda>intersection.
         bindE (t_add gt m) (\<lambda>s.
           Inr (K_mean (v_div (K_sum1 intersection)
                  (map (\<lambda>u. K_epsilon + u) (K_sum1 (K_cast (K_greater s 0))))))))
      = Inr (K_mean (v_div (map sum_list (map2 (map2 (*)) (rows gt) (rows m)))
         (map (\<lambda>u. K_epsilon + u)
              (map sum_list (map (map (\<lambda>v. of_bool (0 < v))) (map2 (map2 (+)) (rows gt) (rows m)))))))"
    unfolding t_mul_def t_add_def binop_same_shape[OF assms] bindE_def K_sum1_cast_greater
    by (simp add: K_sum1_def)
  then show ?thesis
    by (simp only: iou_values_eq[OF len] K_mean_Fin)
qed

lemma binarized_wf:
  "wf_tensor x \<Longrightarrow> wf_tensor (K_cast (K_greater x t))"
  by (simp add: wf_tensor_def K_cast_def K_greater_def list_all_iff)

lemma binarized_same_shape:
  "same_shape a x \<Longrightarrow> same_shape a (K_cast (K_greater x t))"
  by (simp add: same_shape_def nrows_def K_cast_def K_greater_def)

lemma binarized_rows: "rows (K_cast (K_greater x t)) = map (binarize t) (rows x)"
  by (simp add: K_cast_def K_greater_def binarize_def o_def)

lemma iou_eq:
  assumes "wf_tensor gt" "wf_tensor pred" "same_shape gt pred"
  shows "iou gt pred t = Inr (batch_mean (map2 (iou_instance t) (rows gt) (rows pred)))"
proof -
  have "map2 iou_of_mask (rows gt) (map (binarize t) (rows pred))
      = map2 (iou_instance t) (rows gt) (rows pred)"
    by (simp add: iou_instance_def zip_map2 o_def split_def)
  then show ?thesis
  unfolding iou_def Let_def
  by (simp only: iou_tail[OF assms(1) binarized_wf[OF assms(2)] binarized_same_shape[OF assms(3)]] binarized_rows)
qed

section \<open>Claims about iou\<close>

text \<open>
  C2. For equal-shaped 2D tensors gt and pred and every threshold t, \<open>iou gt pred t\<close>
  is the batch mean of the per-instance value
  \<open>sum(gt * [pred > t]) / (sum([(gt + [pred > t]) > 0]) + eps)\<close>, where \<open>[.]\<close> is the
  0/1 indicator with strict greater-than. (It holds for any ground truth values.)
\<close>

theorem iou_batch_mean:
  assumes "wf_tensor gt" "wf_tensor pred" "same_shape gt pred"
  shows "iou gt pred t =
         Inr (batch_mean (map2 (\<lambda>g p.
                sum_list (map2 (*) g (map (\<lambda>v. of_bool (t < v)) p)) /
                (sum_list (map2 (\<lambda>x y. of_bool (0 < x + y)) g (map (\<lambda>v. of_bool (t < v)) p))
                 + K_epsilon))
              (rows gt) (rows pred)))"
  using iou_eq[OF assms, of t]
  by (simp add: iou_instance_def iou_of_mask_def binarize_def)

theorem iou_batch_mean_witness:
  "wf_tensor (Tensor 2 [[1, 1], [0, 1 :: real]]) \<and>
   wf_tensor (Tensor 2 [[9 / 10, 2 / 10], [1 / 10, 7 / 10 :: real]]) \<and>
   same_shape (Tensor 2 [[1, 1], [0, 1 :: real]]) (Tensor 2 [[9 / 10, 2 / 10], [1 / 10, 7 / 10 :: real]]) \<and>
   iou (Tensor 2 [[1, 1], [0, 1]]) (Tensor 2 [[9 / 10, 2 / 10], [1 / 10, 7 / 10]]) (1 / 2)
     = Inr (Fin ((1 / (2 + K_epsilon) + 1 / (1 + K_epsilon)) / 2))"
  using iou_batch_mean[of "Tensor 2 [[1, 1], [0, 1]]" "Tensor 2 [[9 / 10, 2 / 10], [1 / 10, 7 / 10]]" "1 / 2"]
  by (simp add: wf_tensor_def same_shape_def nrows_def batch_mean_def)

section \<open>Precision and recall, row by row\<close>

lemma tp_fp_row:
  assumes "list_all (\<lambda>v. v = 0 \<or> v = 1) g"
  shows "0 \<le> sum_list (map2 (*) g (binarize t p)) \<and>
         sum_list (map (\<lambda>v. of_bool (0 < v)) (map2 (-) (binarize t p) g))
           = sum_list (map2 (\<lambda>y x. max (y - x) 0) (binarize t p) g) \<and>
         0 \<le> sum_list (map2 (\<lambda>y x. max (y - x) 0) (binarize t p) g) \<and>
         sum_list (map (\<lambda>v. of_bool (0 < v)) (map2 (-) g (binarize t p)))
           = sum_list (map2 (\<lambda>x y. max (x - y) 0) g (binarize t p)) \<and>
         0 \<le> sum_list (map2 (\<lambda>x y. max (x - y) 0) g (binarize t p))"
  using assms unfolding binarize_def
proof (induction g p rule: list_induct2')
  case (4 x xs y ys)
  then have x: "x = 0 \<or> x = 1" and xs: "list_all (\<lambda>v. v = 0 \<or> v = 1) xs"
    by simp_all
  from 4(1)[OF xs] x show ?case
    by (auto simp: max_def)
qed simp_all

lemma precision_row:
  assumes "list_all (\<lambda>v. v = 0 \<or> v = 1) g"
  shows "fdiv (sum_list (map2 (*) g (binarize t p)))
              (sum_list (map2 (*) g (binarize t p)) +
               sum_list (map (\<lambda>v. of_bool (0 < v)) (map2 (-) (binarize t p) g)) + K_epsilon)
         = Fin (precision_instance t g p)"
proof -
  note f = tp_fp_row[OF assms, of t p]
  have "sum_list (map2 (*) g (binarize t p)) +
        sum_list (map2 (\<lambda>y x. max (y - x) 0) (binarize t p) g) + K_epsilon \<noteq> 0"
    using f K_epsilon_pos by linarith
  then show ?thesis
    using f by (simp add: fdiv_def precision_instance_def Let_def)
qed

lemma recall_row:
  assumes "list_all (\<lambda>v. v = 0 \<or> v = 1) g"
  shows "fdiv (sum_list (map2 (*) g (binarize t p)))
              (sum_list (map2 (*) g (binarize t p)) +
               sum_list (map (\<lambda>v. of_bool (0 < v)) (map2 (-) g (binarize t p))) + K_epsilon)
         = Fin (recall_instance t g p)"
proof -
  note f = tp_fp_row[OF assms, of t p]
  have "sum_list (map2 (*) g (binarize t p)) +
        sum_list (map2 (\<lambda>x y. max (x - y) 0) g (binarize t p)) + K_epsilon \<noteq> 0"
    using f K_epsilon_pos by linarith
  then show ?thesis
    using f by (simp add: fdiv_def recall_instance_def Let_def)
qed

lemma precision_values_eq:
  "length G = length P \<Longrightarrow> list_all (list_all (\<lambda>v. v = 0 \<or> v = 1)) G \<Longrightarrow>
   v_div (map sum_list (map2 (map2 (*)) G (map (binarize t) P)))
         (map2 (\<lambda>a b. a + b + K_epsilon)
            (map sum_list (map2 (map2 (*)) G (map (binarize t) P)))
            (map sum_list (map (map (\<lambda>v. of_bool (0 < v)))
                               (map2 (map2 (-)) (map (binarize t) P) G))))
   = map Fin (map2 (precision_instance t) G P)"
proof (induction G P rule: list_induct2)
  case Nil
  show ?case by (simp add: v_div_def)
next
  case (Cons g G p P)
  then show ?case
    using precision_row[of g t p] by (simp add: v_div_def)
qed

lemma recall_values_eq:
  "length G = length P \<Longrightarrow> list_all (list_all (\<lambda>v. v = 0 \<or> v = 1)) G \<Longrightarrow>
   v_div (map sum_list (map2 (map2 (*)) G (map (binarize t) P)))
         (map2 (\<lambda>a b. a + b + K_epsilon)
            (map sum_list (map2 (map2 (*)) G (map (binarize t) P)))
            (map sum_list (map (map (\<lambda>v. of_bool (0 < v)))
                               (map2 (map2 (-)) G (map (binarize t) P)))))
   = map Fin (map2 (recall_instance t) G P)"
proof (induction G P rule: list_induct2)
  case Nil
  show ?case by (simp add: v_div_def)
next
  case (Cons g G p P)
  then show ?case
    using recall_row[of g t p] by (simp add: v_div_def)
qed

lemma same_shape_sym: "same_shape a b \<Longrightarrow> same_shape b a"
  by (simp add: same_shape_def)

lemma binarized_ncols: "ncols (K_cast (K_greater x t)) = ncols x"
  by (simp add: K_cast_def K_greater_def)

lemma precision_eq:
  assumes "wf_tensor gt" "wf_tensor pred" "same_shape gt pred" "binary_tensor gt"
  shows "precision gt pred t =
         Inr (batch_mean (map2 (precision_instance t) (rows gt) (rows pred)))"
proof -
  let ?b = "K_cast (K_greater pred t)"
  have len: "length (rows gt) = length (rows pred)"
    using assms(3) by (simp add: same_shape_def nrows_def)
  have bin: "list_all (list_all (\<lambda>v. v = 0 \<or> v = 1)) (rows gt)"
    using assms(4) by (simp add: binary_tensor_def)
  note wb = binarized_wf[OF assms(2), of t]
  note sb = binarized_same_shape[OF assms(3), of t]
  have "precision gt pred t =
        Inr (K_mean (v_div (map sum_list (map2 (map2 (*)) (rows gt) (map (binarize t) (rows pred))))
         (map2 (\<lambda>a b. a + b + K_epsilon)
            (map sum_list (map2 (map2 (*)) (rows gt) (map (binarize t) (rows pred))))
            (map sum_list (map (map (\<lambda>v. of_bool (0 < v)))
                (map2 (map2 (-)) (map (binarize t) (rows pred)) (rows gt)))))))"
    unfolding precision_def Let_def t_mul_def t_sub_def
      binop_same_shape[OF assms(1) wb sb] binop_same_shape[OF wb assms(1) same_shape_sym[OF sb]]
      bindE_def K_sum1_cast_greater
    by (simp add: K_sum1_def binarized_rows)
  then show ?thesis
    by (simp only: precision_values_eq[OF len bin] K_mean_Fin)
qed

lemma recall_eq:
  assumes "wf_tensor gt" "wf_tensor pred" "same_shape gt pred" "binary_tensor gt"
  shows "recall gt pred t =
         Inr (batch_mean (map2 (recall_instance t) (rows gt) (rows pred)))"
proof -
  let ?b = "K_cast (K_greater pred t)"
  have len: "length (rows gt) = length (rows pred)"
    using assms(3) by (simp add: same_shape_def nrows_def)
  have bin: "list_all (list_all (\<lambda>v. v = 0 \<or> v = 1)) (rows gt)"
    using assms(4) by (simp add: binary_tensor_def)
  note wb = binarized_wf[OF assms(2), of t]
  note sb = binarized_same_shape[OF assms(3), of t]
  have "recall gt pred t =
        Inr (K_mean (v_div (map sum_list (map2 (map2 (*)) (rows gt) (map (binarize t) (rows pred))))
         (map2 (\<lambda>a b. a + b + K_epsilon)
            (map sum_list (map2 (map2 (*)) (rows gt) (map (binarize t) (rows pred))))
            (map sum_list (map (map (\<lambda>v. of_bool (0 < v)))
                (map2 (map2 (-)) (rows gt) (map (binarize t) (rows pred))))))))"
    unfolding recall_def Let_def t_mul_def t_sub_def
      binop_same_shape[OF assms(1) wb sb]
      bindE_def K_sum1_cast_greater
    by (simp add: K_sum1_def binarized_rows)
  then show ?thesis
    by (simp only: recall_values_eq[OF len bin] K_mean_Fin)
qed

section \<open>The accuracy metric\<close>

lemma sum_of_bool_count: "sum_list (map (\<lambda>x. of_bool (P x)) xs) = real (length (filter P xs))"
  by (induction xs) simp_all

lemma acc_mean:
  "K_mean (map (\<lambda>v. Fin (of_bool (fgreater v (1 / 2)))) (map Fin vals))
   = fdiv (real (length (filter (\<lambda>v. 1 / 2 < v) vals))) (real (length vals))"
proof -
  have "map (\<lambda>v. Fin (of_bool (fgreater v (1 / 2)))) (map Fin vals)
      = map Fin (map (\<lambda>v. of_bool (1 / 2 < v)) vals)"
    by (simp add: fgreater_def)
  then show ?thesis
    by (simp only: K_mean_Fin) (simp add: batch_mean_def sum_of_bool_count fdiv_def)
qed

lemma iou_acc_eq:
  assumes "wf_tensor gt" "wf_tensor pred" "same_shape gt pred"
  shows "iou_acc gt pred t =
         Inr (fdiv (real (length (filter (\<lambda>v. 1 / 2 < v)
                      (map2 (iou_instance t) (rows gt) (rows pred)))))
                   (real (length (map2 (iou_instance t) (rows gt) (rows pred)))))"
proof -
  have len: "length (rows gt) = length (map (binarize t) (rows pred))"
    using assms(3) by (simp add: same_shape_def nrows_def)
  note wb = binarized_wf[OF assms(2), of t]
  note sb = binarized_same_shape[OF assms(3), of t]
  have i: "map2 iou_of_mask (rows gt) (map (binarize t) (rows pred))
      = map2 (iou_instance t) (rows gt) (rows pred)"
    by (simp add: iou_instance_def zip_map2 o_def split_def)
  have "iou_acc gt pred t =
        Inr (K_mean (map (\<lambda>v. Fin (of_bool (fgreater v (1 / 2))))
          (v_div (map sum_list (map2 (map2 (*)) (rows gt) (map (binarize t) (rows pred))))
            (map (\<lambda>u. K_epsilon + u)
              (map sum_list (map (map (\<lambda>v. of_bool (0 < v)))
                 (map2 (map2 (+)) (rows gt) (map (binarize t) (rows pred)))))))))"
    unfolding iou_acc_def Let_def t_mul_def t_add_def binop_same_shape[OF assms(1) wb sb]
      bindE_def K_sum1_cast_greater
    by (simp add: K_sum1_def binarized_rows)
  then show ?thesis
    by (simp only: iou_values_eq[OF len] acc_mean i)
qed

section \<open>Bounds on the per-instance values\<close>

lemma binarize_binary: "list_all (\<lambda>v. v = 0 \<or> v = 1) (binarize t p)"
  by (simp add: binarize_def list_all_iff)

lemma inter_le_union:
  fixes g b :: "real list"
  assumes "list_all (\<lambda>v. v = 0 \<or> v = 1) g" "list_all (\<lambda>v. v = 0 \<or> v = 1) b"
  shows "0 \<le> sum_list (map2 (*) g b) \<and>
         sum_list (map2 (*) g b) \<le> sum_list (map2 (\<lambda>x y. of_bool (0 < x + y)) g b)"
  using assms
proof (induction g b rule: list_induct2')
  case (4 x xs y ys)
  then have "x = 0 \<or> x = 1" "y = 0 \<or> y = 1"
    and "list_all (\<lambda>v. v = 0 \<or> v = 1) xs" "list_all (\<lambda>v. v = 0 \<or> v = 1) ys"
    by simp_all
  with 4(1) show ?case
    by auto
qed simp_all

lemma iou_of_mask_bounds:
  assumes "list_all (\<lambda>v. v = 0 \<or> v = 1) g" "list_all (\<lambda>v. v = 0 \<or> v = 1) b"
  shows "0 \<le> iou_of_mask g b \<and> iou_of_mask g b < 1"
proof -
  note f = inter_le_union[OF assms]
  then have "0 < sum_list (map2 (\<lambda>x y. of_bool (0 < x + y)) g b) + K_epsilon"
    and "sum_list (map2 (*) g b) < sum_list (map2 (\<lambda>x y. of_bool (0 < x + y)) g b) + K_epsilon"
    using K_epsilon_pos by linarith+
  with f show ?thesis
    by (simp add: iou_of_mask_def)
qed

lemma precision_instance_bounds:
  assumes "list_all (\<lambda>v. v = 0 \<or> v = 1) g"
  shows "0 \<le> precision_instance t g p \<and> precision_instance t g p < 1"
proof -
  note f = tp_fp_row[OF assms, of t p]
  then have "0 < sum_list (map2 (*) g (binarize t p)) +
        sum_list (map2 (\<lambda>y x. max (y - x) 0) (binarize t p) g) + K_epsilon"
    and "sum_list (map2 (*) g (binarize t p)) < sum_list (map2 (*) g (binarize t p)) +
        sum_list (map2 (\<lambda>y x. max (y - x) 0) (binarize t p) g) + K_epsilon"
    using K_epsilon_pos by linarith+
  with f show ?thesis
    by (simp add: precision_instance_def Let_def)
qed

lemma recall_instance_bounds:
  assumes "list_all (\<lambda>v. v = 0 \<or> v = 1) g"
  shows "0 \<le> recall_instance t g p \<and> recall_instance t g p < 1"
proof -
  note f = tp_fp_row[OF assms, of t p]
  then have "0 < sum_list (map2 (*) g (binarize t p)) +
        sum_list (map2 (\<lambda>x y. max (x - y) 0) g (binarize t p)) + K_epsilon"
    and "sum_list (map2 (*) g (binarize t p)) < sum_list (map2 (*) g (binarize t p)) +
        sum_list (map2 (\<lambda>x y. max (x - y) 0) g (binarize t p)) + K_epsilon"
    using K_epsilon_pos by linarith+
  with f show ?thesis
    by (simp add: recall_instance_def Let_def)
qed

lemma sum_list_unit_bounds:
  fixes vs :: "real list"
  assumes "\<forall>v \<in> set vs. 0 \<le> v \<and> v < 1" "vs \<noteq> []"
  shows "0 \<le> sum_list vs \<and> sum_list vs < real (length vs)"
  using assms
proof (induction vs)
  case Nil
  then show ?case by simp
next
  case (Cons v vs)
  show ?case
  proof (cases "vs = []")
    case True
    with Cons.prems show ?thesis by simp
  next
    case False
    with Cons show ?thesis by fastforce
  qed
qed

lemma batch_mean_unit:
  assumes "\<forall>v \<in> set vs. 0 \<le> v \<and> v < 1" "vs \<noteq> []"
  shows "\<exists>r. batch_mean vs = Fin r \<and> 0 \<le> r \<and> r < 1"
proof -
  note b = sum_list_unit_bounds[OF assms]
  have "0 < real (length vs)"
    using assms(2) by simp
  with b have "0 \<le> sum_list vs / real (length vs) \<and> sum_list vs / real (length vs) < 1"
    by simp
  then show ?thesis
    using assms(2) by (simp add: batch_mean_def)
qed

lemma fraction_bounds:
  assumes "vals \<noteq> []"
  shows "\<exists>r. fdiv (real (length (filter P vals))) (real (length vals)) = Fin r \<and> 0 \<le> r \<and> r \<le> 1"
proof -
  have "length (filter P vals) \<le> length vals"
    by simp
  then have "real (length (filter P vals)) / real (length vals) \<le> 1"
    using assms by (simp add: divide_le_eq_1)
  then show ?thesis
    using assms by (simp add: fdiv_def)
qed

section \<open>An all-zero batch\<close>

lemma zero_numerator:
  fixes g b :: "real list"
  shows "list_all (\<lambda>v. v = 0) g \<Longrightarrow> sum_list (map2 (*) g b) = 0"
  by (induction g b rule: list_induct2') simp_all

lemma zero_union:
  "list_all (\<lambda>v. v = 0) g \<Longrightarrow> list_all (\<lambda>v. v \<le> t) p \<Longrightarrow>
   sum_list (map2 (\<lambda>x y. of_bool (0 < x + y) :: real) g (binarize t p)) = 0 \<and>
   sum_list (map2 (\<lambda>y x. max (y - x) 0) (binarize t p) g) = 0 \<and>
   sum_list (map2 (\<lambda>x y. max (x - y) 0) g (binarize t p)) = 0"
  unfolding binarize_def
  by (induction g p rule: list_induct2') simp_all

lemma zero_instances:
  assumes "list_all (\<lambda>v. v = 0) g" "list_all (\<lambda>v. v \<le> t) p"
  shows "iou_instance t g p = 0 / K_epsilon" "precision_instance t g p = 0 / K_epsilon"
        "recall_instance t g p = 0 / K_epsilon"
  using zero_numerator[OF assms(1), of "binarize t p"] zero_union[OF assms]
  by (simp_all add: iou_instance_def iou_of_mask_def precision_instance_def recall_instance_def)

lemma batch_mean_zero:
  fixes vs :: "real list"
  assumes "\<forall>v \<in> set vs. v = 0" "vs \<noteq> []"
  shows "batch_mean vs = Fin 0"
proof -
  have "sum_list vs = 0"
    using assms(1) by (induction vs) simp_all
  then show ?thesis
    using assms(2) by (simp add: batch_mean_def)
qed

lemma zeros_binary: "list_all (list_all (\<lambda>v. v = 0)) G \<Longrightarrow> list_all (list_all (\<lambda>v. v = 0 \<or> v = (1::real))) G"
  by (auto simp: list_all_iff)

lemma zero_batch_values:
  assumes "list_all (list_all (\<lambda>v. v = 0)) G" "list_all (list_all (\<lambda>v. v \<le> t)) P"
  shows "\<forall>v \<in> set (map2 (iou_instance t) G P). v = 0"
    and "\<forall>v \<in> set (map2 (precision_instance t) G P). v = 0"
    and "\<forall>v \<in> set (map2 (recall_instance t) G P). v = 0"
proof -
  have z: "iou_instance t g p = 0 \<and> precision_instance t g p = 0 \<and> recall_instance t g p = 0"
    if "(g, p) \<in> set (zip G P)" for g p
  proof -
    from that have "g \<in> set G" "p \<in> set P"
      by (auto dest: set_zip_leftD set_zip_rightD)
    with assms have "list_all (\<lambda>v. v = 0) g" "list_all (\<lambda>v. v \<le> t) p"
      by (simp_all add: list_all_iff)
    from zero_instances[OF this] show ?thesis
      by simp
  qed
  show "\<forall>v \<in> set (map2 (iou_instance t) G P). v = 0"
    using z by auto
  show "\<forall>v \<in> set (map2 (precision_instance t) G P). v = 0"
    using z by auto
  show "\<forall>v \<in> set (map2 (recall_instance t) G P). v = 0"
    using z by auto
qed

section \<open>Claims about precision, iou_acc and the all-zero batch\<close>

text \<open>
  C5. For equal-shaped 2D tensors gt (values in {0, 1}) and pred and every threshold t,
  \<open>precision gt pred t\<close> is the batch mean of \<open>tp / (tp + fp + eps)\<close> with, per
  instance, \<open>tp = sum(gt * binarized)\<close> and \<open>fp = sum(max(binarized - gt, 0))\<close>,
  \<open>binarized = [pred > t]\<close>. The code counts the cells with \<open>binarized - gt > 0\<close>;
  on a 0/1 ground truth that is the same number.
\<close>

theorem precision_batch_mean:
  assumes "wf_tensor gt" "wf_tensor pred" "same_shape gt pred" "binary_tensor gt"
  shows "precision gt pred t =
         Inr (batch_mean (map2 (\<lambda>g p.
                let binarized = map (\<lambda>v. of_bool (t < v)) p;
                    tp = sum_list (map2 (*) g binarized);
                    fp = sum_list (map2 (\<lambda>y x. max (y - x) 0) binarized g)
                in tp / (tp + fp + K_epsilon))
              (rows gt) (rows pred)))"
  using precision_eq[OF assms, of t]
  by (simp add: precision_instance_def binarize_def)

theorem precision_batch_mean_witness:
  "wf_tensor (Tensor 2 [[1, 1], [1, 0 :: real]]) \<and>
   wf_tensor (Tensor 2 [[9 / 10, 2 / 10], [6 / 10, 7 / 10 :: real]]) \<and>
   same_shape (Tensor 2 [[1, 1], [1, 0 :: real]])
              (Tensor 2 [[9 / 10, 2 / 10], [6 / 10, 7 / 10 :: real]]) \<and>
   binary_tensor (Tensor 2 [[1, 1], [1, 0]]) \<and>
   precision (Tensor 2 [[1, 1], [1, 0]]) (Tensor 2 [[9 / 10, 2 / 10], [6 / 10, 7 / 10]]) (1 / 2)
     = Inr (Fin ((1 / (1 + K_epsilon) + 1 / (2 + K_epsilon)) / 2))"
  using precision_batch_mean[of "Tensor 2 [[1, 1], [1, 0]]"
      "Tensor 2 [[9 / 10, 2 / 10], [6 / 10, 7 / 10]]" "1 / 2"]
  by (simp add: wf_tensor_def same_shape_def nrows_def binary_tensor_def batch_mean_def)

text \<open>
  C4. \<open>iou_acc gt pred t\<close> is the fraction of the instances of the batch whose IoU, the
  per-instance value of \<open>iou\<close> with its epsilon, is strictly greater than 1/2 (0/0, NaN,
  on an empty batch). The cutoff 1/2 is a constant: the threshold t only binarizes the
  prediction. An instance whose IoU is exactly 1/2 does not pass the strict filter.
\<close>

theorem iou_acc_fraction:
  assumes "wf_tensor gt" "wf_tensor pred" "same_shape gt pred"
  shows "iou gt pred t = Inr (batch_mean (map2 (iou_instance t) (rows gt) (rows pred))) \<and>
         iou_acc gt pred t =
           Inr (fdiv (real (length (filter (\<lambda>v. 1 / 2 < v)
                              (map2 (iou_instance t) (rows gt) (rows pred)))))
                     (real (nrows gt)))"
proof -
  have "length (map2 (iou_instance t) (rows gt) (rows pred)) = nrows gt"
    using assms(3) by (simp add: same_shape_def nrows_def)
  then show ?thesis
    using iou_eq[OF assms, of t] iou_acc_eq[OF assms, of t] by simp
qed

theorem iou_acc_fraction_witness:
  "wf_tensor (Tensor 1 [[(1 + K_epsilon) / 2], [1], [0]]) \<and>
   wf_tensor (Tensor 1 [[1], [1], [1 :: real]]) \<and>
   same_shape (Tensor 1 [[(1 + K_epsilon) / 2], [1], [0]]) (Tensor 1 [[1], [1], [1 :: real]]) \<and>
   map2 (iou_instance 0) [[(1 + K_epsilon) / 2], [1], [0]] [[1], [1], [1]]
     = [1 / 2, 1 / (1 + K_epsilon), 0] \<and>
   iou_acc (Tensor 1 [[(1 + K_epsilon) / 2], [1], [0]]) (Tensor 1 [[1], [1], [1]]) 0
     = Inr (Fin (1 / 3))"
  using iou_acc_fraction[of "Tensor 1 [[(1 + K_epsilon) / 2], [1], [0]]" "Tensor 1 [[1], [1], [1]]" 0]
    K_epsilon_pos
  by (simp add: wf_tensor_def same_shape_def nrows_def iou_instance_def iou_of_mask_def
      binarize_def fdiv_def K_epsilon_def)

text \<open>
  C8, as amended. On a batch with at least one instance, an all-zero ground truth and a
  prediction nowhere above the threshold, \<open>iou\<close>, \<open>precision\<close> and \<open>recall\<close> each
  return the finite value 0 / eps = 0. (On a batch with no instance the mean is 0/0 and
  each returns NaN.)
\<close>

theorem zero_batch_metrics:
  assumes "wf_tensor gt" "wf_tensor pred" "same_shape gt pred" "rows gt \<noteq> []"
    "list_all (list_all (\<lambda>v. v = 0)) (rows gt)"
    "list_all (list_all (\<lambda>v. v \<le> t)) (rows pred)"
  shows "iou gt pred t = Inr (Fin (0 / K_epsilon)) \<and>
         precision gt pred t = Inr (Fin (0 / K_epsilon)) \<and>
         recall gt pred t = Inr (Fin (0 / K_epsilon))"
proof -
  have bin: "binary_tensor gt"
    using assms(5) by (simp add: binary_tensor_def zeros_binary)
  have ne: "map2 f (rows gt) (rows pred) \<noteq> []" for f :: "real list \<Rightarrow> real list \<Rightarrow> real"
    using assms(3,4) by (cases "rows gt"; cases "rows pred") (simp_all add: same_shape_def nrows_def)
  note z = zero_batch_values[OF assms(5,6)]
  show ?thesis
    using iou_eq[OF assms(1-3), of t] precision_eq[OF assms(1-3) bin, of t]
      recall_eq[OF assms(1-3) bin, of t]
      batch_mean_zero[OF z(1) ne] batch_mean_zero[OF z(2) ne] batch_mean_zero[OF z(3) ne]
    by simp
qed

theorem zero_batch_metrics_witness:
  "wf_tensor (Tensor 2 [[0, 0], [0, 0 :: real]]) \<and>
   wf_tensor (Tensor 2 [[1 / 2, 2 / 10], [1 / 10, 0 :: real]]) \<and>
   same_shape (Tensor 2 [[0, 0], [0, 0 :: real]]) (Tensor 2 [[1 / 2, 2 / 10], [1 / 10, 0 :: real]]) \<and>
   rows (Tensor 2 [[0, 0], [0, 0 :: real]]) \<noteq> [] \<and>
   list_all (list_all (\<lambda>v. v = 0)) (rows (Tensor 2 [[0, 0], [0, 0 :: real]])) \<and>
   list_all (list_all (\<lambda>v. v \<le> 1 / 2)) (rows (Tensor 2 [[1 / 2, 2 / 10], [1 / 10, 0 :: real]])) \<and>
   iou (Tensor 2 [[0, 0], [0, 0]]) (Tensor 2 [[1 / 2, 2 / 10], [1 / 10, 0]]) (1 / 2) = Inr (Fin 0) \<and>
   precision (Tensor 2 [[0, 0], [0, 0]]) (Tensor 2 [[1 / 2, 2 / 10], [1 / 10, 0]]) (1 / 2) = Inr (Fin 0) \<and>
   recall (Tensor 2 [[0, 0], [0, 0]]) (Tensor 2 [[1 / 2, 2 / 10], [1 / 10, 0]]) (1 / 2) = Inr (Fin 0)"
  using zero_batch_metrics[of "Tensor 2 [[0, 0], [0, 0]]" "Tensor 2 [[1 / 2, 2 / 10], [1 / 10, 0]]" "1 / 2"]
  by (simp add: wf_tensor_def same_shape_def nrows_def)

theorem empty_batch_is_nan:
  "list_all (list_all (\<lambda>v. v = 0)) (rows (Tensor 2 ([] :: real list list))) \<and>
   list_all (list_all (\<lambda>v. v \<le> 1 / 2)) (rows (Tensor 2 ([] :: real list list))) \<and>
   iou (Tensor 2 []) (Tensor 2 []) (1 / 2) = Inr NaN \<and>
   precision (Tensor 2 []) (Tensor 2 []) (1 / 2) = Inr NaN \<and>
   recall (Tensor 2 []) (Tensor 2 []) (1 / 2) = Inr NaN"
  by (simp add: iou_def precision_def recall_def t_mul_def t_add_def t_sub_def binop_def bdim_def
      nrows_def K_cast_def K_greater_def broadcast_to_def stretch_def bindE_def K_sum1_def
      v_div_def K_mean_def fdiv_def)

section \<open>Reshaping\<close>

lemma chunks_Nil: "chunks n [] = []"
  by (simp add: chunks.simps)

lemma chunks_step: "0 < n \<Longrightarrow> xs \<noteq> [] \<Longrightarrow> chunks n xs = take n xs # chunks n (drop n xs)"
  by (subst chunks.simps) simp

lemma chunks_concat:
  assumes "0 < n" "\<forall>r \<in> set R. length r = n"
  shows "chunks n (concat R) = R"
  using assms(2)
proof (induction R)
  case Nil
  show ?case by (simp add: chunks_Nil)
next
  case (Cons r R)
  then have r: "length r = n" and "chunks n (concat R) = R"
    by simp_all
  moreover from r assms(1) have "r @ concat R \<noteq> []"
    by auto
  ultimately show ?case
    using assms(1) by (simp add: chunks_step)
qed

lemma chunks_map: "chunks n (map f xs) = map (map f) (chunks n xs)"
proof (induction n xs rule: chunks.induct)
  case (1 n xs)
  show ?case
  proof (cases "n = 0 \<or> xs = []")
    case True
    then show ?thesis
      by (auto simp: chunks.simps[of n xs] chunks.simps[of n "map f xs"])
  next
    case False
    with 1 have "chunks n (map f (drop n xs)) = map (map f) (chunks n (drop n xs))"
      by simp
    with False show ?thesis
      by (simp add: chunks_step take_map drop_map)
  qed
qed

lemma take_eq_map_nth: "n \<le> length xs \<Longrightarrow> take n xs = map (\<lambda>j. xs ! j) [0..<n]"
  by (rule nth_equalityI) simp_all

lemma chunks_grid:
  assumes "0 < n"
  shows "length xs = k * n \<Longrightarrow>
         chunks n xs = map (\<lambda>i. map (\<lambda>j. xs ! (i * n + j)) [0..<n]) [0..<k]"
proof (induction k arbitrary: xs)
  case 0
  then show ?case by (simp add: chunks_Nil)
next
  case (Suc k)
  then have len: "length xs = n + k * n"
    by simp
  with assms have ne: "xs \<noteq> []" and le: "n \<le> length xs"
    by auto
  have "length (drop n xs) = k * n"
    using len by simp
  from Suc.IH[OF this]
  have "chunks n (drop n xs) = map (\<lambda>i. map (\<lambda>j. xs ! (Suc i * n + j)) [0..<n]) [0..<k]"
    using le by (simp add: add.assoc)
  then show ?case
    using take_eq_map_nth[OF le]
    by (simp only: chunks_step[OF assms ne] map_upt_Suc[of _ k]) simp
qed

lemma chunks_length:
  assumes "0 < n" "length xs = k * n"
  shows "length (chunks n xs) = k" "\<forall>c \<in> set (chunks n xs). length c = n"
  using chunks_grid[OF assms] by auto

lemma length_concat_wf: "wf_tensor x \<Longrightarrow> length (concat (rows x)) = nrows x * ncols x"
proof -
  have "\<forall>r \<in> set R. length r = c \<Longrightarrow> length (concat R) = length R * c" for R :: "'a list list" and c
    by (induction R) simp_all
  then show "wf_tensor x \<Longrightarrow> length (concat (rows x)) = nrows x * ncols x"
    by (simp add: wf_tensor_def list_all_iff nrows_def)
qed

section \<open>The mask of one instance\<close>

lemma sum_of_bool_pos:
  "(0 < sum_list (map (\<lambda>x. of_bool (P x) :: real) xs)) = list_ex P xs"
proof (induction xs)
  case Nil
  show ?case by simp
next
  case (Cons x xs)
  have "0 \<le> sum_list (map (\<lambda>x. of_bool (P x) :: real) xs)"
    by (rule sum_of_bool_nonneg)
  with Cons show ?case
    by (cases "P x") auto
qed

lemma binarize_nth: "k < length q \<Longrightarrow> binarize t q ! k = of_bool (t < q ! k)"
  by (simp add: binarize_def)

lemma grid_index: "i < d \<Longrightarrow> j < d \<Longrightarrow> i * d + j < d * (d :: nat)"
proof -
  assume a: "i < d" "j < d"
  then have "i * d + j < i * d + d" by simp
  also have "\<dots> = Suc i * d" by simp
  also have "\<dots> \<le> d * d" using a(1) by (metis Suc_leI mult.commute mult_le_mono2)
  finally show ?thesis .
qed

lemma instance_grid:
  assumes "0 < d" "length q = d * d"
  shows "chunks d (binarize t q)
         = map (\<lambda>i. map (\<lambda>j. of_bool (positive d t q i j)) [0..<d]) [0..<d]"
proof -
  have "length (binarize t q) = d * d"
    using assms(2) by (simp add: binarize_def)
  from chunks_grid[OF assms(1) this]
  have "chunks d (binarize t q) = map (\<lambda>i. map (\<lambda>j. binarize t q ! (i * d + j)) [0..<d]) [0..<d]" .
  also have "\<dots> = map (\<lambda>i. map (\<lambda>j. of_bool (positive d t q i j)) [0..<d]) [0..<d]"
    using assms(2) by (auto simp: positive_def binarize_nth grid_index)
  finally show ?thesis .
qed

lemma grid_transpose:
  assumes "0 < d"
  shows "transpose (map (\<lambda>i. map (\<lambda>j. c i j) [0..<d]) [0..<d])
         = map (\<lambda>j. map (\<lambda>i. c i j) [0..<d]) [0..<d]"
proof -
  let ?m = "map (\<lambda>i. map (\<lambda>j. c i j) [0..<d]) [0..<d]"
  have "transpose ?m = map (\<lambda>i. map (\<lambda>j. ?m ! j ! i) [0..<length ?m]) [0..<d]"
    by (rule transpose_rectangle) (use assms in auto)
  also have "\<dots> = map (\<lambda>j. map (\<lambda>i. c i j) [0..<d]) [0..<d]"
    by simp
  finally show ?thesis .
qed

lemma instance_mask:
  fixes d :: nat and t :: real and q :: "real list"
  assumes "0 < d" "length q = d * d"
  defines "m \<equiv> chunks d (binarize t q)"
  shows "map2 (map2 (*))
           (map (\<lambda>r. concat (map (replicate d) (map of_bool (map (\<lambda>v. 0 < v) [sum_list r])))) m)
           (concat (map (replicate d)
              (map (map of_bool) (map (map (\<lambda>v. 0 < v)) [map sum_list (transpose m)]))))
         = map (\<lambda>i. map (\<lambda>j. of_bool (row_active d t q i \<and> col_active d t q j) :: real) [0..<d])
               [0..<d]"
proof -
  have m: "m = map (\<lambda>i. map (\<lambda>j. of_bool (positive d t q i j)) [0..<d]) [0..<d]"
    unfolding m_def by (rule instance_grid[OF assms(1,2)])
  have vert: "map (\<lambda>r. concat (map (replicate d) (map of_bool (map (\<lambda>v. 0 < v) [sum_list r])))) m
            = map (\<lambda>i. replicate d (of_bool (row_active d t q i))) [0..<d]"
    unfolding m by (simp add: o_def sum_of_bool_pos row_active_def)
  have tr: "transpose m = map (\<lambda>j. map (\<lambda>i. of_bool (positive d t q i j)) [0..<d]) [0..<d]"
    unfolding m by (rule grid_transpose[OF assms(1)])
  have horiz: "concat (map (replicate d)
              (map (map of_bool) (map (map (\<lambda>v. 0 < v)) [map sum_list (transpose m)])))
            = replicate d (map (\<lambda>j. of_bool (col_active d t q j)) [0..<d])"
    unfolding tr by (simp add: o_def sum_of_bool_pos col_active_def)
  show ?thesis
    unfolding vert horiz
    by (rule nth_equalityI) (auto simp: of_bool_conj intro!: nth_equalityI)
qed

section \<open>The mask tensor\<close>

lemma mask3_map:
  "t_mul3 (K_repeat_elements_axis2 (K_cast3 (K_greater3 (K_sum3_axis2 x) 0)) d)
          (K_repeat_elements_axis1 (K_cast3 (K_greater3 (K_sum3_axis1 x) 0)) d)
   = map (\<lambda>m. map2 (map2 (*))
           (map (\<lambda>r. concat (map (replicate d) (map of_bool (map (\<lambda>v. 0 < v) [sum_list r])))) m)
           (concat (map (replicate d)
              (map (map of_bool) (map (map (\<lambda>v. 0 < v)) [map sum_list (transpose m)]))))) x"
  by (induction x)
     (simp_all add: t_mul3_def K_repeat_elements_axis2_def K_repeat_elements_axis1_def
       K_cast3_def K_greater3_def K_sum3_axis2_def K_sum3_axis1_def o_def)

lemma length_proj_mask: "length (proj_mask d t q) = d * d"
proof -
  have "length (concat (map (\<lambda>i. map (f i) [0..<d]) is)) = length is * d"
    for f :: "nat \<Rightarrow> nat \<Rightarrow> real" and "is" :: "nat list"
    by (induction "is") simp_all
  then show ?thesis
    by (simp add: proj_mask_def)
qed

lemma reshape2_masks:
  assumes "0 < d"
  shows "K_reshape2 (map (\<lambda>q. map (\<lambda>i. map (\<lambda>j. of_bool (row_active d t q i \<and> col_active d t q j) :: real)
                                         [0..<d]) [0..<d]) Q) (d * d)
         = Inr (Tensor (d * d) (map (proj_mask d t) Q))"
proof -
  have c: "concat (map concat (map (\<lambda>q. map (\<lambda>i. map (\<lambda>j. of_bool (row_active d t q i \<and> col_active d t q j) :: real)
                                         [0..<d]) [0..<d]) Q)) = concat (map (proj_mask d t) Q)"
    by (simp add: proj_mask_def[abs_def] o_def)
  have l: "\<forall>r \<in> set (map (proj_mask d t) Q). length r = d * d"
    by (simp add: length_proj_mask)
  then have "length (concat (map (proj_mask d t) Q)) = length Q * (d * d)"
    by (induction Q) simp_all
  then have "length (concat (map (proj_mask d t) Q)) mod (d * d) = 0"
    by simp
  moreover have "chunks (d * d) (concat (map (proj_mask d t) Q)) = map (proj_mask d t) Q"
    using assms l by (intro chunks_concat) simp_all
  ultimately show ?thesis
    unfolding K_reshape2_def Let_def c using assms by simp
qed

lemma iou_bbox_mask_general:
  assumes "wf_tensor pred" "0 < d" "(nrows pred * ncols pred) mod (d * d) = 0"
  shows "iou_bbox_mask pred t d
         = Inr (Tensor (d * d) (map (proj_mask d t) (chunks (d * d) (concat (rows pred)))))"
proof -
  let ?F = "concat (rows pred)"
  let ?Q = "chunks (d * d) ?F"
  have lenF: "length ?F = nrows pred * ncols pred"
    by (rule length_concat_wf[OF assms(1)])
  have dd: "0 < d * d"
    using assms(2) by simp
  have flat: "concat (rows (K_cast (K_greater pred t))) = binarize t ?F"
    by (simp add: binarized_rows binarize_def[abs_def] map_concat)
  have lenB: "length (binarize t ?F) = nrows pred * ncols pred"
    using lenF by (simp add: binarize_def)
  have r3: "K_reshape3 (K_cast (K_greater pred t)) d
            = Inr (map (\<lambda>q. chunks d (binarize t q)) ?Q)"
    unfolding K_reshape3_def Let_def flat lenB
    using assms(2,3) by (simp add: binarize_def chunks_map o_def)
  have "length ?F = (length ?F div (d * d)) * (d * d)"
    using assms(3) lenF by (metis div_mult_mod_eq add.right_neutral)
  from chunks_length(2)[OF dd this] have lq: "\<forall>q \<in> set ?Q. length q = d * d" .
  define G :: "real list list \<Rightarrow> real list list" where "G = (\<lambda>m. map2 (map2 (*))
           (map (\<lambda>r. concat (map (replicate d) (map of_bool (map (\<lambda>v. 0 < v) [sum_list r])))) m)
           (concat (map (replicate d)
              (map (map of_bool) (map (map (\<lambda>v. 0 < v)) [map sum_list (transpose m)])))))"
  define grid where "grid = (\<lambda>q. map (\<lambda>i. map (\<lambda>j.
           of_bool (row_active d t q i \<and> col_active d t q j) :: real) [0..<d]) [0..<d])"
  have m3: "t_mul3 (K_repeat_elements_axis2 (K_cast3 (K_greater3 (K_sum3_axis2 x) 0)) d)
                   (K_repeat_elements_axis1 (K_cast3 (K_greater3 (K_sum3_axis1 x) 0)) d)
            = map G x" for x
    unfolding G_def by (rule mask3_map)
  have "map G (map (\<lambda>q. chunks d (binarize t q)) ?Q) = map (\<lambda>q. G (chunks d (binarize t q))) ?Q"
    by (simp only: map_map o_def)
  also have "\<dots> = map grid ?Q"
  proof (rule map_ext, rule impI)
    fix q assume "q \<in> set ?Q"
    with lq have "length q = d * d"
      by simp
    from instance_mask[OF assms(2) this, of t]
    show "G (chunks d (binarize t q)) = grid q"
      unfolding G_def grid_def .
  qed
  finally have inst: "map G (map (\<lambda>q. chunks d (binarize t q)) ?Q) = map grid ?Q" .
  have "K_reshape2 (map grid ?Q) (d * d) = Inr (Tensor (d * d) (map (proj_mask d t) ?Q))"
    unfolding grid_def by (rule reshape2_masks[OF assms(2)])
  then show ?thesis
    unfolding iou_bbox_mask_def Let_def r3 bindE_def sum.case m3 inst .
qed

lemma iou_bbox_mask_eq:
  assumes "wf_tensor pred" "0 < d" "ncols pred = d * d"
  shows "iou_bbox_mask pred t d = Inr (Tensor (d * d) (map (proj_mask d t) (rows pred)))"
proof -
  have "chunks (d * d) (concat (rows pred)) = rows pred"
    using assms by (intro chunks_concat) (simp_all add: wf_tensor_def list_all_iff)
  moreover have "(nrows pred * ncols pred) mod (d * d) = 0"
    using assms(3) by simp
  ultimately show ?thesis
    using iou_bbox_mask_general[OF assms(1,2), of t] by simp
qed

lemma iou_bbox_eq:
  assumes "wf_tensor gt" "wf_tensor pred" "same_shape gt pred" "0 < d" "ncols gt = d * d"
  shows "iou_bbox gt pred t d
         = Inr (batch_mean (map2 (\<lambda>g p. iou_of_mask g (proj_mask d t p)) (rows gt) (rows pred)))"
proof -
  let ?M = "Tensor (d * d) (map (proj_mask d t) (rows pred))"
  have nc: "ncols pred = d * d"
    using assms(3,5) by (simp add: same_shape_def)
  have wm: "wf_tensor ?M"
    by (simp add: wf_tensor_def list_all_iff length_proj_mask)
  have sm: "same_shape gt ?M"
    using assms(3,5) by (simp add: same_shape_def nrows_def)
  have "map2 iou_of_mask (rows gt) (map (proj_mask d t) (rows pred))
      = map2 (\<lambda>g p. iou_of_mask g (proj_mask d t p)) (rows gt) (rows pred)"
    by (simp add: zip_map2 o_def split_def)
  then show ?thesis
    unfolding iou_bbox_def Let_def iou_bbox_mask_eq[OF assms(2,4) nc] bindE_def sum.case
    using iou_tail[OF assms(1) wm sm] by (simp add: bindE_def)
qed

section \<open>The grid of one instance: cells, rows and columns\<close>

lemma row_active_iff: "row_active d t p i \<longleftrightarrow> (\<exists>j<d. positive d t p i j)"
  by (auto simp: row_active_def list_ex_iff)

lemma col_active_iff: "col_active d t p j \<longleftrightarrow> (\<exists>i<d. positive d t p i j)"
  by (auto simp: col_active_def list_ex_iff)

lemma list_ex_upto_Suc: "list_ex a [0..<Suc i] \<longleftrightarrow> (\<exists>k\<le>i. a k)"
  unfolding list_ex_iff set_upt Bex_def atLeastLessThan_iff
  by (auto simp: less_Suc_eq_le)

lemma list_ex_from: "list_ex a [i..<d] \<longleftrightarrow> (\<exists>k\<ge>i. k < d \<and> a k)"
  unfolding list_ex_iff set_upt Bex_def atLeastLessThan_iff
  by auto

lemma in_bounding_box_iff:
  "in_bounding_box d t p i j \<longleftrightarrow>
     (\<exists>i1\<le>i. row_active d t p i1) \<and> (\<exists>i2\<ge>i. i2 < d \<and> row_active d t p i2) \<and>
     (\<exists>j1\<le>j. col_active d t p j1) \<and> (\<exists>j2\<ge>j. j2 < d \<and> col_active d t p j2)"
  by (simp only: in_bounding_box_def list_ex_upto_Suc[of _ i] list_ex_upto_Suc[of _ j]
      list_ex_from[of _ i d] list_ex_from[of _ j d])

lemma contiguous_iff:
  "contiguous d a \<longleftrightarrow> (\<forall>i<d. (\<exists>i1\<le>i. a i1) \<and> (\<exists>i2\<ge>i. i2 < d \<and> a i2) \<longrightarrow> a i)"
proof -
  have "contiguous d a \<longleftrightarrow> (\<forall>i \<in> set [0..<d]. list_ex a [0..<Suc i] \<and> list_ex a [i..<d] \<longrightarrow> a i)"
    by (simp only: contiguous_def list_all_iff)
  also have "\<dots> \<longleftrightarrow> (\<forall>i<d. list_ex a [0..<Suc i] \<and> list_ex a [i..<d] \<longrightarrow> a i)"
    by (simp only: set_upt Ball_def atLeastLessThan_iff) simp
  also have "\<dots> \<longleftrightarrow> (\<forall>i<d. (\<exists>i1\<le>i. a i1) \<and> (\<exists>i2\<ge>i. i2 < d \<and> a i2) \<longrightarrow> a i)"
    using list_ex_upto_Suc[of a] list_ex_from[of a _ d] by simp
  finally show ?thesis .
qed

lemma grid_flat:
  "concat (map (\<lambda>i. map (\<lambda>j. c i j) [0..<d]) [0..<k])
   = map (\<lambda>n. c (n div d) (n mod d)) [0..<k * d]"
proof (induction k)
  case 0
  show ?case by simp
next
  case (Suc k)
  have "Suc k * d = k * d + d"
    by simp
  then have "[0..<Suc k * d] = [0..<k * d] @ [k * d..<k * d + d]"
    by (simp only: upt_add_eq_append[OF le0])
  moreover have "map (\<lambda>n. c (n div d) (n mod d)) [k * d..<k * d + d] = map (\<lambda>j. c k j) [0..<d]"
  proof (rule nth_equalityI)
    show "length (map (\<lambda>n. c (n div d) (n mod d)) [k * d..<k * d + d]) = length (map (\<lambda>j. c k j) [0..<d])"
      by simp
  next
    fix j assume "j < length (map (\<lambda>n. c (n div d) (n mod d)) [k * d..<k * d + d])"
    then have j: "j < d" by simp
    then have "(k * d + j) div d = k" "(k * d + j) mod d = j"
      by simp_all
    with j show "map (\<lambda>n. c (n div d) (n mod d)) [k * d..<k * d + d] ! j = map (\<lambda>j. c k j) [0..<d] ! j"
      by simp
  qed
  ultimately have "map (\<lambda>n. c (n div d) (n mod d)) [0..<Suc k * d]
      = map (\<lambda>n. c (n div d) (n mod d)) [0..<k * d] @ map (\<lambda>j. c k j) [0..<d]"
    by (simp only: map_append)
  with Suc show ?case
    by simp
qed

lemma proj_mask_flat:
  "proj_mask d t p
   = map (\<lambda>n. of_bool (row_active d t p (n div d) \<and> col_active d t p (n mod d))) [0..<d * d]"
  unfolding proj_mask_def by (rule grid_flat)

lemma rect_mask_flat:
  "rect_mask d t p = map (\<lambda>n. of_bool (in_bounding_box d t p (n div d) (n mod d))) [0..<d * d]"
  unfolding rect_mask_def by (rule grid_flat)

lemma binarize_flat:
  assumes "length p = d * d"
  shows "binarize t p = map (\<lambda>n. of_bool (positive d t p (n div d) (n mod d))) [0..<d * d]"
proof -
  have "binarize t p = map (\<lambda>n. of_bool (t < p ! n)) [0..<length p]"
    unfolding binarize_def by (rule nth_equalityI) simp_all
  then show ?thesis
    using assms by (simp add: positive_def)
qed

lemma cell_div_mod: "i < d \<Longrightarrow> j < d \<Longrightarrow> (i * d + j) div d = i \<and> (i * d + j) mod d = (j :: nat)"
  by simp

lemma flat_eq_iff:
  "map (\<lambda>n. of_bool (A (n div d) (n mod d)) :: real) [0..<d * d]
     = map (\<lambda>n. of_bool (B (n div d) (n mod d))) [0..<d * d]
   \<longleftrightarrow> (\<forall>i<d. \<forall>j<d. A i j = B i j)"
proof
  assume eq: "map (\<lambda>n. of_bool (A (n div d) (n mod d)) :: real) [0..<d * d]
     = map (\<lambda>n. of_bool (B (n div d) (n mod d))) [0..<d * d]"
  show "\<forall>i<d. \<forall>j<d. A i j = B i j"
  proof (intro allI impI)
    fix i j assume ij: "i < d" "j < d"
    have dm: "(i * d + j) div d = i" "(i * d + j) mod d = j"
      using ij by simp_all
    have "i * d + j \<in> set [0..<d * d]"
      using grid_index[OF ij] by simp
    with eq have "(of_bool (A ((i * d + j) div d) ((i * d + j) mod d)) :: real)
                 = of_bool (B ((i * d + j) div d) ((i * d + j) mod d))"
      unfolding map_eq_conv by blast
    then have "(of_bool (A i j) :: real) = of_bool (B i j)"
      unfolding dm .
    then show "A i j = B i j"
      by (simp only: of_bool_eq_iff)
  qed
next
  assume ab: "\<forall>i<d. \<forall>j<d. A i j = B i j"
  have "A (n div d) (n mod d) = B (n div d) (n mod d)" if "n < d * d" for n
  proof -
    from that have "0 < d"
      by (cases d) simp_all
    then have "n mod d < d"
      by simp
    moreover from that have "n div d < d"
      by (rule less_mult_imp_div_less)
    ultimately show ?thesis
      using ab by blast
  qed
  then show "map (\<lambda>n. of_bool (A (n div d) (n mod d)) :: real) [0..<d * d]
     = map (\<lambda>n. of_bool (B (n div d) (n mod d))) [0..<d * d]"
    by simp
qed

section \<open>The mask and the bounding rectangle\<close>

lemma positive_active:
  "i < d \<Longrightarrow> j < d \<Longrightarrow> positive d t p i j \<Longrightarrow> row_active d t p i \<and> col_active d t p j"
  by (auto simp: row_active_iff col_active_iff)

lemma active_in_box:
  "i < d \<Longrightarrow> j < d \<Longrightarrow> row_active d t p i \<and> col_active d t p j \<Longrightarrow> in_bounding_box d t p i j"
  unfolding in_bounding_box_iff by blast

text \<open>
  \<open>in_bounding_box\<close> is the least rectangle: it holds the active cells (\<open>active_in_box\<close>
  with \<open>positive_active\<close>), and every rectangle of rows r0 to r1 and columns c0 to c1
  that holds the predicted-positive cells holds it.
\<close>

lemma bounding_box_least:
  assumes "\<forall>i<d. \<forall>j<d. positive d t p i j \<longrightarrow> r0 \<le> i \<and> i \<le> r1 \<and> c0 \<le> j \<and> j \<le> c1"
    and "in_bounding_box d t p i j"
  shows "r0 \<le> i \<and> i \<le> r1 \<and> c0 \<le> j \<and> j \<le> c1"
proof -
  have r: "r0 \<le> k \<and> k \<le> r1" if "row_active d t p k" "k < d" for k
    using that assms(1) unfolding row_active_iff by blast
  have c: "c0 \<le> k \<and> k \<le> c1" if "col_active d t p k" "k < d" for k
    using that assms(1) unfolding col_active_iff by blast
  from assms(2) obtain i1 i2 j1 j2 where
    i: "i1 \<le> i" "row_active d t p i1" "i \<le> i2" "i2 < d" "row_active d t p i2" and
    j: "j1 \<le> j" "col_active d t p j1" "j \<le> j2" "j2 < d" "col_active d t p j2"
    unfolding in_bounding_box_iff by blast
  from i have "i1 < d" by simp
  from j have "j1 < d" by simp
  from r[OF i(2) \<open>i1 < d\<close>] r[OF i(5) i(4)] c[OF j(2) \<open>j1 < d\<close>] c[OF j(5) j(4)] i(1,3) j(1,3)
  show ?thesis
    by linarith
qed

lemma proj_eq_rect_iff:
  "proj_mask d t p = rect_mask d t p
   \<longleftrightarrow> contiguous d (row_active d t p) \<and> contiguous d (col_active d t p)"
proof -
  let ?R = "row_active d t p" and ?C = "col_active d t p"
  let ?bR = "\<lambda>i. (\<exists>i1\<le>i. ?R i1) \<and> (\<exists>i2\<ge>i. i2 < d \<and> ?R i2)"
  let ?bC = "\<lambda>j. (\<exists>j1\<le>j. ?C j1) \<and> (\<exists>j2\<ge>j. j2 < d \<and> ?C j2)"
  have box: "in_bounding_box d t p i j \<longleftrightarrow> ?bR i \<and> ?bC j" for i j
    unfolding in_bounding_box_iff by blast
  have cell: "proj_mask d t p = rect_mask d t p
              \<longleftrightarrow> (\<forall>i<d. \<forall>j<d. (?R i \<and> ?C j) = (?bR i \<and> ?bC j))"
    unfolding proj_mask_flat rect_mask_flat
    using flat_eq_iff[of "\<lambda>i j. ?R i \<and> ?C j" d "\<lambda>i j. in_bounding_box d t p i j"]
    by (simp only: box)
  have someC: "\<exists>j<d. ?C j" if "?R i" "i < d" for i
    using that unfolding row_active_iff col_active_iff by blast
  have someR: "\<exists>i<d. ?R i" if "?C j" "j < d" for j
    using that unfolding row_active_iff col_active_iff by blast
  have selfR: "?bR i" if "?R i" "i < d" for i
    using that by blast
  have selfC: "?bC j" if "?C j" "j < d" for j
    using that by blast
  show ?thesis
    unfolding cell contiguous_iff
  proof (rule iffI)
    assume eq: "\<forall>i<d. \<forall>j<d. (?R i \<and> ?C j) = (?bR i \<and> ?bC j)"
    have "?R i" if i: "i < d" and b: "?bR i" for i
    proof -
      from b i obtain i1 where "?R i1" "i1 < d"
        by (meson le_less_trans)
      from someC[OF this] obtain j where j: "j < d" "?C j"
        by blast
      from selfC[OF j(2,1)] b eq i j(1) show "?R i"
        by blast
    qed
    moreover have "?C j" if j: "j < d" and b: "?bC j" for j
    proof -
      from b j obtain j1 where "?C j1" "j1 < d"
        by (meson le_less_trans)
      from someR[OF this] obtain i where i: "i < d" "?R i"
        by blast
      from selfR[OF i(2,1)] b eq i(1) j show "?C j"
        by blast
    qed
    ultimately show "(\<forall>i<d. ?bR i \<longrightarrow> ?R i) \<and> (\<forall>j<d. ?bC j \<longrightarrow> ?C j)"
      by blast
  next
    assume c: "(\<forall>i<d. ?bR i \<longrightarrow> ?R i) \<and> (\<forall>j<d. ?bC j \<longrightarrow> ?C j)"
    show "\<forall>i<d. \<forall>j<d. (?R i \<and> ?C j) = (?bR i \<and> ?bC j)"
    proof (intro allI impI)
      fix i j assume ij: "i < d" "j < d"
      have "?R i = ?bR i"
        using c ij(1) selfR by blast
      moreover have "?C j = ?bC j"
        using c ij(2) selfC by blast
      ultimately show "(?R i \<and> ?C j) = (?bR i \<and> ?bC j)"
        by simp
    qed
  qed
qed

section \<open>Rectangular predictions\<close>

lemma solid_rectangle_iff:
  "solid_rectangle d t p \<longleftrightarrow>
     (\<exists>r0\<le>d. \<exists>r1\<le>d. \<exists>c0\<le>d. \<exists>c1\<le>d. is_rect d t p r0 r1 c0 c1)"
  unfolding solid_rectangle_def list_ex_upto_Suc ..

lemma is_rect_iff:
  "is_rect d t p r0 r1 c0 c1 \<longleftrightarrow>
     (\<forall>i<d. \<forall>j<d. positive d t p i j = (r0 \<le> i \<and> i < r1 \<and> c0 \<le> j \<and> j < c1))"
  unfolding is_rect_def list_all_iff set_upt Ball_def atLeastLessThan_iff by simp

lemma rectangle_fixed:
  assumes "solid_rectangle d t p" "length p = d * d"
  shows "proj_mask d t p = binarize t p"
proof -
  from assms(1) obtain r0 r1 c0 c1 where
    r: "\<forall>i<d. \<forall>j<d. positive d t p i j = (r0 \<le> i \<and> i < r1 \<and> c0 \<le> j \<and> j < c1)"
    unfolding solid_rectangle_iff is_rect_iff by blast
  have "(row_active d t p i \<and> col_active d t p j) = positive d t p i j" if "i < d" "j < d" for i j
  proof
    assume "row_active d t p i \<and> col_active d t p j"
    then obtain j' i' where "j' < d" "positive d t p i j'" "i' < d" "positive d t p i' j"
      unfolding row_active_iff col_active_iff by blast
    with r that have "r0 \<le> i \<and> i < r1" "c0 \<le> j \<and> j < c1"
      by blast+
    with r that show "positive d t p i j"
      by blast
  next
    assume "positive d t p i j"
    with that show "row_active d t p i \<and> col_active d t p j"
      by (simp add: positive_active)
  qed
  then have "\<forall>i<d. \<forall>j<d. (row_active d t p i \<and> col_active d t p j) = positive d t p i j"
    by blast
  then show ?thesis
    unfolding proj_mask_flat binarize_flat[OF assms(2)]
    using flat_eq_iff[of "\<lambda>i j. row_active d t p i \<and> col_active d t p j" d "\<lambda>i j. positive d t p i j"]
    by blast
qed

lemma proj_mask_nth:
  assumes "i < d" "j < d"
  shows "proj_mask d t p ! (i * d + j) = of_bool (row_active d t p i \<and> col_active d t p j)"
  using grid_index[OF assms] cell_div_mod[OF assms] by (simp add: proj_mask_flat)

lemma rect_mask_nth:
  assumes "i < d" "j < d"
  shows "rect_mask d t p ! (i * d + j) = of_bool (in_bounding_box d t p i j)"
  using grid_index[OF assms] cell_div_mod[OF assms] by (simp add: rect_mask_flat)

lemma proj_mask_binary: "list_all (\<lambda>v. v = 0 \<or> v = 1) (proj_mask d t p)"
  by (simp add: proj_mask_flat list_all_iff)

section \<open>Claims about the bounding-box mask\<close>

text \<open>
  What \<open>iou_bbox\<close> computes. For gt and pred of shape (batch, d * d) with d \<ge> 1, the
  mask has, per instance, a 1 in cell (i, j) iff row i and column j both hold a
  predicted-positive cell. This mask covers every predicted-positive cell and lies inside
  the smallest axis-aligned rectangle covering them; it is that rectangle exactly when the
  active rows have no gap and the active columns have no gap. \<open>iou_bbox\<close> returns the batch
  mean of the per-instance IoU of this mask against gt.
\<close>

lemma iou_bbox_mask_rows_times_columns:
  assumes "wf_tensor gt" "wf_tensor pred" "same_shape gt pred" "0 < d" "ncols gt = d * d"
  shows "iou_bbox_mask pred t d = Inr (Tensor (d * d) (map (proj_mask d t) (rows pred))) \<and>
         (\<forall>p \<in> set (rows pred). \<forall>i<d. \<forall>j<d.
            proj_mask d t p ! (i * d + j) = of_bool (row_active d t p i \<and> col_active d t p j) \<and>
            rect_mask d t p ! (i * d + j) = of_bool (in_bounding_box d t p i j) \<and>
            (positive d t p i j \<longrightarrow> row_active d t p i \<and> col_active d t p j) \<and>
            (row_active d t p i \<and> col_active d t p j \<longrightarrow> in_bounding_box d t p i j)) \<and>
         (\<forall>p \<in> set (rows pred).
            (proj_mask d t p = rect_mask d t p) =
            (contiguous d (row_active d t p) \<and> contiguous d (col_active d t p))) \<and>
         iou_bbox gt pred t d =
           Inr (batch_mean (map2 (\<lambda>g p. iou_of_mask g (proj_mask d t p)) (rows gt) (rows pred)))"
proof -
  have nc: "ncols pred = d * d"
    using assms(3,5) by (simp add: same_shape_def)
  show ?thesis
    using iou_bbox_mask_eq[OF assms(2,4) nc, of t] iou_bbox_eq[OF assms, of t]
      proj_mask_nth[of _ d _ t] rect_mask_nth[of _ d _ t] positive_active[of _ d _ t]
      active_in_box[of _ d _ t] proj_eq_rect_iff[of d t]
    by simp
qed

text \<open>
  C6. On a prediction whose binarized mask is, for each instance, a solid axis-aligned
  rectangle (possibly empty), the mask of \<open>iou_bbox\<close> is the binarized prediction itself and
  \<open>iou_bbox\<close> returns what \<open>iou\<close> returns (gt and pred of shape (batch, d * d), d \<ge> 1; any
  ground truth values).
\<close>

theorem iou_bbox_on_rectangles:
  assumes "wf_tensor gt" "wf_tensor pred" "same_shape gt pred" "0 < d" "ncols gt = d * d"
    "list_all (solid_rectangle d t) (rows pred)"
  shows "iou_bbox_mask pred t d = Inr (K_cast (K_greater pred t)) \<and>
         iou_bbox gt pred t d = iou gt pred t \<and>
         iou gt pred t = Inr (batch_mean (map2 (iou_instance t) (rows gt) (rows pred)))"
proof -
  have nc: "ncols pred = d * d"
    using assms(3,5) by (simp add: same_shape_def)
  have fixed: "proj_mask d t p = binarize t p" if "p \<in> set (rows pred)" for p
  proof -
    from that assms(2) nc have "length p = d * d"
      by (simp add: wf_tensor_def list_all_iff)
    moreover from that assms(6) have "solid_rectangle d t p"
      by (simp add: list_all_iff)
    ultimately show ?thesis
      by (simp add: rectangle_fixed)
  qed
  then have m: "map (proj_mask d t) (rows pred) = map (binarize t) (rows pred)"
    by simp
  have "K_cast (K_greater pred t) = Tensor (d * d) (map (binarize t) (rows pred))"
    using nc binarized_rows[of pred t] binarized_ncols[of pred t]
    by (cases "K_cast (K_greater pred t)") simp
  with m have 1: "iou_bbox_mask pred t d = Inr (K_cast (K_greater pred t))"
    using iou_bbox_mask_eq[OF assms(2,4) nc, of t] by simp
  have e: "map2 (\<lambda>g p. iou_of_mask g (proj_mask d t p)) (rows gt) (rows pred)
      = map2 (iou_instance t) (rows gt) (rows pred)"
    using fixed by (auto simp: iou_instance_def dest: set_zip_rightD)
  have 2: "iou_bbox gt pred t d = iou gt pred t"
    unfolding iou_bbox_eq[OF assms(1-5)] iou_eq[OF assms(1-3)] e ..
  from 1 2 iou_eq[OF assms(1-3), of t] show ?thesis
    by simp
qed

lemma iou_bbox_mask_rows_times_columns_example:
  "wf_tensor (Tensor 4 [[1, 1, 0, 0 :: real]]) \<and>
   wf_tensor (Tensor 4 [[9 / 10, 1 / 10, 2 / 10, 8 / 10 :: real]]) \<and>
   same_shape (Tensor 4 [[1, 1, 0, 0 :: real]]) (Tensor 4 [[9 / 10, 1 / 10, 2 / 10, 8 / 10 :: real]]) \<and>
   (0 :: nat) < 2 \<and> ncols (Tensor 4 [[1, 1, 0, 0 :: real]]) = 2 * 2 \<and>
   iou_bbox_mask (Tensor 4 [[9 / 10, 1 / 10, 2 / 10, 8 / 10]]) (1 / 2) 2
     = Inr (Tensor 4 [[1, 1, 1, 1]]) \<and>
   rect_mask 2 (1 / 2) [9 / 10, 1 / 10, 2 / 10, 8 / 10] = [1, 1, 1, 1] \<and>
   iou_bbox (Tensor 4 [[1, 1, 0, 0]]) (Tensor 4 [[9 / 10, 1 / 10, 2 / 10, 8 / 10]]) (1 / 2) 2
     = Inr (Fin (2 / (4 + K_epsilon)))"
proof -
  let ?G = "Tensor 4 [[1, 1, 0, 0 :: real]]"
  let ?P = "Tensor 4 [[9 / 10, 1 / 10, 2 / 10, 8 / 10 :: real]]"
  have h: "wf_tensor ?G" "wf_tensor ?P" "same_shape ?G ?P" "(0 :: nat) < 2" "ncols ?G = 2 * 2"
    by (simp_all add: wf_tensor_def same_shape_def nrows_def)
  note T = iou_bbox_mask_rows_times_columns[OF h, of "1 / 2"]
  have e1: "Tensor (2 * 2) (map (proj_mask 2 (1 / 2)) (rows ?P)) = Tensor 4 [[1, 1, 1, 1]]"
    by code_simp
  have e2: "batch_mean (map2 (\<lambda>g p. iou_of_mask g (proj_mask 2 (1 / 2) p)) (rows ?G) (rows ?P))
            = Fin (2 / (4 + K_epsilon))"
    by code_simp
  have e3: "rect_mask 2 (1 / 2) [9 / 10, 1 / 10, 2 / 10, 8 / 10] = [1, 1, 1, 1]"
    by code_simp
  from T e1 have a: "iou_bbox_mask ?P (1 / 2) 2 = Inr (Tensor 4 [[1, 1, 1, 1]])"
    by simp
  from T e2 have b: "iou_bbox ?G ?P (1 / 2) 2 = Inr (Fin (2 / (4 + K_epsilon)))"
    by simp
  from h a b e3 show ?thesis
    by simp
qed

text \<open>
  C1. The claim: the mask computed inside \<open>iou_bbox\<close> is the indicator of the smallest
  axis-aligned rectangle covering the predicted-positive cells of the instance, and
  \<open>iou_bbox\<close>, documented as the IoU of the bbox predictions, returns the mean IoU of this
  mask against gt. The code departs from it where the active rows or columns have a gap.
  For one 3 by 3 instance with predicted-positive cells at two opposite corners the mask
  of the code is the four corners, where the rectangle is the whole grid; against an
  all-ones ground truth \<open>iou_bbox\<close> returns 4 / (9 + eps), where the rectangle has the IoU
  9 / (9 + eps).
\<close>

theorem bbox_mask_is_not_the_rectangle:
  "iou_bbox_mask (Tensor 9 [[1, 0, 0, 0, 0, 0, 0, 0, 1]]) (1 / 2) 3
     = Inr (Tensor 9 [[1, 0, 1, 0, 0, 0, 1, 0, 1]]) \<and>
   rect_mask 3 (1 / 2) [1, 0, 0, 0, 0, 0, 0, 0, 1] = [1, 1, 1, 1, 1, 1, 1, 1, 1] \<and>
   iou_bbox (Tensor 9 [[1, 1, 1, 1, 1, 1, 1, 1, 1]]) (Tensor 9 [[1, 0, 0, 0, 0, 0, 0, 0, 1]]) (1 / 2) 3
     = Inr (Fin (4 / (9 + K_epsilon))) \<and>
   iou_of_mask [1, 1, 1, 1, 1, 1, 1, 1, 1] (rect_mask 3 (1 / 2) [1, 0, 0, 0, 0, 0, 0, 0, 1])
     = 9 / (9 + K_epsilon)"
  by code_simp

theorem iou_bbox_on_rectangles_witness:
  "wf_tensor (Tensor 4 [[1, 0, 1, 0 :: real]]) \<and>
   wf_tensor (Tensor 4 [[9 / 10, 8 / 10, 2 / 10, 1 / 10 :: real]]) \<and>
   same_shape (Tensor 4 [[1, 0, 1, 0 :: real]]) (Tensor 4 [[9 / 10, 8 / 10, 2 / 10, 1 / 10 :: real]]) \<and>
   (0 :: nat) < 2 \<and> ncols (Tensor 4 [[1, 0, 1, 0 :: real]]) = 2 * 2 \<and>
   list_all (solid_rectangle 2 (1 / 2)) (rows (Tensor 4 [[9 / 10, 8 / 10, 2 / 10, 1 / 10]])) \<and>
   iou_bbox_mask (Tensor 4 [[9 / 10, 8 / 10, 2 / 10, 1 / 10]]) (1 / 2) 2
     = Inr (Tensor 4 [[1, 1, 0, 0]]) \<and>
   iou_bbox (Tensor 4 [[1, 0, 1, 0]]) (Tensor 4 [[9 / 10, 8 / 10, 2 / 10, 1 / 10]]) (1 / 2) 2
     = iou (Tensor 4 [[1, 0, 1, 0]]) (Tensor 4 [[9 / 10, 8 / 10, 2 / 10, 1 / 10]]) (1 / 2) \<and>
   iou (Tensor 4 [[1, 0, 1, 0]]) (Tensor 4 [[9 / 10, 8 / 10, 2 / 10, 1 / 10]]) (1 / 2)
     = Inr (Fin (1 / (3 + K_epsilon)))"
proof -
  let ?G = "Tensor 4 [[1, 0, 1, 0 :: real]]"
  let ?P = "Tensor 4 [[9 / 10, 8 / 10, 2 / 10, 1 / 10 :: real]]"
  have h: "wf_tensor ?G" "wf_tensor ?P" "same_shape ?G ?P" "(0 :: nat) < 2" "ncols ?G = 2 * 2"
    by (simp_all add: wf_tensor_def same_shape_def nrows_def)
  have r: "list_all (solid_rectangle 2 (1 / 2)) (rows ?P)"
    by code_simp
  note T = iou_bbox_on_rectangles[OF h r]
  have e1: "K_cast (K_greater ?P (1 / 2)) = Tensor 4 [[1, 1, 0, 0]]"
    by code_simp
  have e2: "batch_mean (map2 (iou_instance (1 / 2)) (rows ?G) (rows ?P)) = Fin (1 / (3 + K_epsilon))"
    by code_simp
  from T e1 e2 h r show ?thesis
    by simp
qed

section \<open>Claims about the metric factory and the report line\<close>

lemma foldl_append_one: "foldl (\<lambda>acc x. acc @ [g x]) acc xs = acc @ map g xs"
  by (induction xs arbitrary: acc) simp_all

text \<open>
  C3. For every input_dim and every threshold sequence, \<open>get_metrics\<close> returns
  5 * len(thresholds) metric functions: for each metric kind in the order iou, precision,
  recall, iou_acc, iou_bbox, one function per threshold in the given order, named
  \<open><metric>_<str(threshold)>\<close> and closed over its threshold (iou_bbox also over
  input_dim). With \<open>str(0.5) = "0.5"\<close>, \<open>get_metrics(3, [0.5])\<close> is the five functions
  iou_0.5, precision_0.5, recall_0.5, iou_acc_0.5, iou_bbox_0.5.
\<close>

theorem get_metrics_order:
  "get_metrics str d ts =
     concat (map (\<lambda>(nm, f). map (\<lambda>t. \<lparr>name = nm @ ''_'' @ str t,
                                       func = (\<lambda>gt pred. f gt pred t)\<rparr>) ts)
       [(''iou'', iou), (''precision'', precision), (''recall'', recall),
        (''iou_acc'', iou_acc), (''iou_bbox'', \<lambda>gt pred t. iou_bbox gt pred t d)]) \<and>
   length (get_metrics str d ts) = 5 * length ts \<and>
   (str (1 / 2) = ''0.5'' \<longrightarrow>
      get_metrics str 3 [1 / 2] =
        [\<lparr>name = ''iou_0.5'', func = (\<lambda>gt pred. iou gt pred (1 / 2))\<rparr>,
         \<lparr>name = ''precision_0.5'', func = (\<lambda>gt pred. precision gt pred (1 / 2))\<rparr>,
         \<lparr>name = ''recall_0.5'', func = (\<lambda>gt pred. recall gt pred (1 / 2))\<rparr>,
         \<lparr>name = ''iou_acc_0.5'', func = (\<lambda>gt pred. iou_acc gt pred (1 / 2))\<rparr>,
         \<lparr>name = ''iou_bbox_0.5'', func = (\<lambda>gt pred. iou_bbox gt pred (1 / 2) 3)\<rparr>])"
  by (simp add: get_metrics_def foldl_append_one)

theorem get_metrics_order_witness:
  "(\<lambda>t :: real. ''0.5'') (1 / 2) = ''0.5'' \<and>
   map name (get_metrics (\<lambda>t. ''0.5'') 3 [1 / 2]) =
     [''iou_0.5'', ''precision_0.5'', ''recall_0.5'', ''iou_acc_0.5'', ''iou_bbox_0.5''] \<and>
   map (\<lambda>m. func m (Tensor 1 [[1]]) (Tensor 1 [[1]])) (get_metrics (\<lambda>t. ''0.5'') 3 [1 / 2]) =
     [iou (Tensor 1 [[1]]) (Tensor 1 [[1]]) (1 / 2), precision (Tensor 1 [[1]]) (Tensor 1 [[1]]) (1 / 2),
      recall (Tensor 1 [[1]]) (Tensor 1 [[1]]) (1 / 2), iou_acc (Tensor 1 [[1]]) (Tensor 1 [[1]]) (1 / 2),
      iou_bbox (Tensor 1 [[1]]) (Tensor 1 [[1]]) (1 / 2) 3]"
  using get_metrics_order[of "\<lambda>t. ''0.5''" 3 "[1 / 2]"]
  by simp

text \<open>
  C7, as amended. \<open>format_results\<close> never fails. It pairs names and values with \<open>zip\<close>, so
  on sequences of different lengths it formats the pairs up to the shorter length and
  drops the rest. The result is \<open>"name1: v1, name2: v2, ..."\<close> with each value printed by
  \<open>%2.3f\<close>, three decimal places; \<open>format_results(["a","b"], [1.0, 2.5])\<close> is
  \<open>"a: 1.000, b: 2.500"\<close>.
\<close>

theorem format_results_zip:
  "format_results names scalars =
     Inr (join '', '' (map2 (\<lambda>n v. n @ '': '' @ fmt_2_3f v) names scalars)) \<and>
   format_results names scalars =
     format_results (take (min (length names) (length scalars)) names)
                    (take (min (length names) (length scalars)) scalars) \<and>
   format_results [''a'', ''b''] [1, 5 / 2] = Inr ''a: 1.000, b: 2.500''"
proof -
  have f: "format_results ns vs = Inr (join '', '' (map2 (\<lambda>n v. n @ '': '' @ fmt_2_3f v) ns vs))"
    for ns vs
  proof -
    have "(\<lambda>res (name, scalar). res @ [name @ '': '' @ fmt_2_3f scalar])
        = (\<lambda>res x. res @ [(\<lambda>(n, v). n @ '': '' @ fmt_2_3f v) x])"
      by (simp add: fun_eq_iff split_def)
    then show ?thesis
      by (simp add: format_results_def foldl_append_one)
  qed
  have z: "zip (take (min (length names) (length scalars)) names)
               (take (min (length names) (length scalars)) scalars) = zip names scalars"
    by (simp add: take_zip[symmetric])
  have e: "format_results [''a'', ''b''] [1, 5 / 2] = Inr ''a: 1.000, b: 2.500''"
    by (simp add: format_results_def fmt_2_3f_def round_half_even_def digit_def)
  show ?thesis
    using f[of names scalars]
      f[of "take (min (length names) (length scalars)) names"
           "take (min (length names) (length scalars)) scalars"] z e
    by simp
qed

theorem format_results_truncates:
  "length [''a'', ''b''] \<noteq> length [1 :: real] \<and>
   format_results [''a'', ''b''] [1] = Inr ''a: 1.000'' \<and>
   format_results [''a'', ''b''] [1] \<noteq> Inl InvalidArgument"
  by (simp add: format_results_def fmt_2_3f_def round_half_even_def digit_def)

section \<open>Claim about the range of the metrics\<close>

lemma instance_values_unit:
  assumes "list_all (list_all (\<lambda>v. v = 0 \<or> v = 1)) G"
  shows "\<forall>v \<in> set (map2 (iou_instance t) G P). 0 \<le> v \<and> v < 1"
    and "\<forall>v \<in> set (map2 (precision_instance t) G P). 0 \<le> v \<and> v < 1"
    and "\<forall>v \<in> set (map2 (recall_instance t) G P). 0 \<le> v \<and> v < 1"
    and "\<forall>v \<in> set (map2 (\<lambda>g p. iou_of_mask g (proj_mask d t p)) G P). 0 \<le> v \<and> v < 1"
proof -
  have b: "list_all (\<lambda>v. v = 0 \<or> v = 1) g" if "(g, p) \<in> set (zip G P)" for g p
    using that assms by (auto simp: list_all_iff dest: set_zip_leftD)
  show "\<forall>v \<in> set (map2 (iou_instance t) G P). 0 \<le> v \<and> v < 1"
    using b iou_of_mask_bounds[OF _ binarize_binary] by (auto simp: iou_instance_def)
  show "\<forall>v \<in> set (map2 (precision_instance t) G P). 0 \<le> v \<and> v < 1"
    using b precision_instance_bounds by auto
  show "\<forall>v \<in> set (map2 (recall_instance t) G P). 0 \<le> v \<and> v < 1"
    using b recall_instance_bounds by auto
  show "\<forall>v \<in> set (map2 (\<lambda>g p. iou_of_mask g (proj_mask d t p)) G P). 0 \<le> v \<and> v < 1"
    using b iou_of_mask_bounds[OF _ proj_mask_binary] by auto
qed

lemma unit_weaken: "\<exists>r. x = Fin r \<and> 0 \<le> r \<and> r < 1 \<Longrightarrow> \<exists>r. Inr x = (Inr (Fin r) :: error + fval) \<and> 0 \<le> r \<and> r \<le> 1"
  by auto

text \<open>
  C10, as amended. For gt with values in {0, 1} and pred of the same shape, on a batch
  with at least one instance, each of \<open>iou\<close>, \<open>precision\<close>, \<open>recall\<close> and \<open>iou_acc\<close> returns a
  finite scalar in [0, 1], and so does \<open>iou_bbox\<close> when input_dim \<ge> 1 and
  N = input_dim * input_dim. Every per-instance ratio of \<open>iou\<close>, \<open>precision\<close>, \<open>recall\<close> and
  \<open>iou_bbox\<close> lies in [0, 1]. The bound is the closed interval: the exact ratios are
  below 1, but float32 addition absorbs epsilon into a sum of 2 or more, so the code
  returns 1.0 on a perfect match. (On a batch with no instance every metric is NaN.)
\<close>

theorem metrics_in_unit_interval:
  assumes "wf_tensor gt" "wf_tensor pred" "same_shape gt pred" "binary_tensor gt" "rows gt \<noteq> []"
  shows "(\<exists>r. iou gt pred t = Inr (Fin r) \<and> 0 \<le> r \<and> r \<le> 1) \<and>
         (\<exists>r. precision gt pred t = Inr (Fin r) \<and> 0 \<le> r \<and> r \<le> 1) \<and>
         (\<exists>r. recall gt pred t = Inr (Fin r) \<and> 0 \<le> r \<and> r \<le> 1) \<and>
         (\<exists>r. iou_acc gt pred t = Inr (Fin r) \<and> 0 \<le> r \<and> r \<le> 1) \<and>
         (0 < d \<and> ncols gt = d * d \<longrightarrow>
            (\<exists>r. iou_bbox gt pred t d = Inr (Fin r) \<and> 0 \<le> r \<and> r \<le> 1)) \<and>
         (\<forall>v \<in> set (map2 (iou_instance t) (rows gt) (rows pred)). 0 \<le> v \<and> v \<le> 1) \<and>
         (\<forall>v \<in> set (map2 (precision_instance t) (rows gt) (rows pred)). 0 \<le> v \<and> v \<le> 1) \<and>
         (\<forall>v \<in> set (map2 (recall_instance t) (rows gt) (rows pred)). 0 \<le> v \<and> v \<le> 1) \<and>
         (\<forall>v \<in> set (map2 (\<lambda>g p. iou_of_mask g (proj_mask d t p)) (rows gt) (rows pred)).
            0 \<le> v \<and> v \<le> 1)"
proof -
  have bin: "list_all (list_all (\<lambda>v. v = 0 \<or> v = 1)) (rows gt)"
    using assms(4) by (simp add: binary_tensor_def)
  have ne: "map2 f (rows gt) (rows pred) \<noteq> []" for f :: "real list \<Rightarrow> real list \<Rightarrow> real"
    using assms(3,5) by (cases "rows gt"; cases "rows pred") (simp_all add: same_shape_def nrows_def)
  note u = instance_values_unit(1)[OF bin, where t = t and P = "rows pred"]
    instance_values_unit(2)[OF bin, where t = t and P = "rows pred"]
    instance_values_unit(3)[OF bin, where t = t and P = "rows pred"]
    instance_values_unit(4)[OF bin, where t = t and P = "rows pred" and d = d]
  have 1: "\<exists>r. iou gt pred t = Inr (Fin r) \<and> 0 \<le> r \<and> r \<le> 1"
    unfolding iou_eq[OF assms(1-3)] by (rule unit_weaken[OF batch_mean_unit[OF u(1) ne]])
  have 2: "\<exists>r. precision gt pred t = Inr (Fin r) \<and> 0 \<le> r \<and> r \<le> 1"
    unfolding precision_eq[OF assms(1-4)] by (rule unit_weaken[OF batch_mean_unit[OF u(2) ne]])
  have 3: "\<exists>r. recall gt pred t = Inr (Fin r) \<and> 0 \<le> r \<and> r \<le> 1"
    unfolding recall_eq[OF assms(1-4)] by (rule unit_weaken[OF batch_mean_unit[OF u(3) ne]])
  have 4: "\<exists>r. iou_acc gt pred t = Inr (Fin r) \<and> 0 \<le> r \<and> r \<le> 1"
    unfolding iou_acc_eq[OF assms(1-3)] using fraction_bounds[OF ne] by simp
  have 5: "\<exists>r. iou_bbox gt pred t d = Inr (Fin r) \<and> 0 \<le> r \<and> r \<le> 1"
    if "0 < d" "ncols gt = d * d"
    unfolding iou_bbox_eq[OF assms(1-3) that]
    by (rule unit_weaken[OF batch_mean_unit[OF u(4) ne]])
  have c: "\<forall>v \<in> set vs. 0 \<le> v \<and> v \<le> 1" if "\<forall>v \<in> set vs. 0 \<le> v \<and> v < 1"
    for vs :: "real list"
    using that by (auto intro: less_imp_le)
  from 1 2 3 4 5 c[OF u(1)] c[OF u(2)] c[OF u(3)] c[OF u(4)] show ?thesis
    by blast
qed

theorem metrics_in_unit_interval_witness:
  "wf_tensor (Tensor 4 [[1, 1, 0, 0], [0, 1, 0, 0 :: real]]) \<and>
   wf_tensor (Tensor 4 [[9 / 10, 1 / 10, 2 / 10, 8 / 10], [1 / 10, 9 / 10, 0, 0 :: real]]) \<and>
   same_shape (Tensor 4 [[1, 1, 0, 0], [0, 1, 0, 0 :: real]])
     (Tensor 4 [[9 / 10, 1 / 10, 2 / 10, 8 / 10], [1 / 10, 9 / 10, 0, 0 :: real]]) \<and>
   binary_tensor (Tensor 4 [[1, 1, 0, 0], [0, 1, 0, 0]]) \<and>
   rows (Tensor 4 [[1, 1, 0, 0], [0, 1, 0, 0 :: real]]) \<noteq> [] \<and>
   (0 :: nat) < 2 \<and> ncols (Tensor 4 [[1, 1, 0, 0], [0, 1, 0, 0 :: real]]) = 2 * 2 \<and>
   (\<exists>r. iou (Tensor 4 [[1, 1, 0, 0], [0, 1, 0, 0]])
            (Tensor 4 [[9 / 10, 1 / 10, 2 / 10, 8 / 10], [1 / 10, 9 / 10, 0, 0]]) (1 / 2)
          = Inr (Fin r) \<and> 0 \<le> r \<and> r \<le> 1) \<and>
   (\<exists>r. iou_bbox (Tensor 4 [[1, 1, 0, 0], [0, 1, 0, 0]])
            (Tensor 4 [[9 / 10, 1 / 10, 2 / 10, 8 / 10], [1 / 10, 9 / 10, 0, 0]]) (1 / 2) 2
          = Inr (Fin r) \<and> 0 \<le> r \<and> r \<le> 1) \<and>
   iou_bbox (Tensor 4 [[1, 1, 0, 0], [0, 1, 0, 0]])
            (Tensor 4 [[9 / 10, 1 / 10, 2 / 10, 8 / 10], [1 / 10, 9 / 10, 0, 0]]) (1 / 2) 2
     = Inr (Fin ((2 / (4 + K_epsilon) + 1 / (1 + K_epsilon)) / 2))"
proof -
  let ?G = "Tensor 4 [[1, 1, 0, 0], [0, 1, 0, 0 :: real]]"
  let ?P = "Tensor 4 [[9 / 10, 1 / 10, 2 / 10, 8 / 10], [1 / 10, 9 / 10, 0, 0 :: real]]"
  have h: "wf_tensor ?G" "wf_tensor ?P" "same_shape ?G ?P" "binary_tensor ?G" "rows ?G \<noteq> []"
    by (simp_all add: wf_tensor_def same_shape_def nrows_def binary_tensor_def)
  have d: "(0 :: nat) < 2" "ncols ?G = 2 * 2"
    by simp_all
  note T = metrics_in_unit_interval[OF h, of "1 / 2" 2]
  have v: "iou_bbox ?G ?P (1 / 2) 2 = Inr (Fin ((2 / (4 + K_epsilon) + 1 / (1 + K_epsilon)) / 2))"
    by code_simp
  from T d h v show ?thesis
    by simp
qed

theorem empty_batch_not_in_unit_interval:
  "wf_tensor (Tensor 4 ([] :: real list list)) \<and> binary_tensor (Tensor 4 []) \<and>
   same_shape (Tensor 4 ([] :: real list list)) (Tensor 4 ([] :: real list list)) \<and>
   iou (Tensor 4 []) (Tensor 4 []) (1 / 2) = Inr NaN \<and>
   precision (Tensor 4 []) (Tensor 4 []) (1 / 2) = Inr NaN \<and>
   recall (Tensor 4 []) (Tensor 4 []) (1 / 2) = Inr NaN \<and>
   iou_acc (Tensor 4 []) (Tensor 4 []) (1 / 2) = Inr NaN \<and>
   iou_bbox (Tensor 4 []) (Tensor 4 []) (1 / 2) 2 = Inr NaN"
  by code_simp

section \<open>When the bounding-box metric fails\<close>

lemma bdim_None_iff: "bdim m n = None \<longleftrightarrow> m \<noteq> n \<and> m \<noteq> 1 \<and> n \<noteq> 1"
  by (simp add: bdim_def)

lemma binop_Inr:
  "bdim (nrows a) (nrows b) \<noteq> None \<Longrightarrow> bdim (ncols a) (ncols b) \<noteq> None \<Longrightarrow> \<exists>v. binop f a b = Inr v"
  by (auto simp: binop_def split: option.splits)

lemma binop_Inl:
  "bdim (nrows a) (nrows b) = None \<or> bdim (ncols a) (ncols b) = None \<Longrightarrow>
   binop f a b = Inl InvalidArgument"
  by (auto simp: binop_def split: option.splits)

lemma shape_condition:
  assumes "0 < d"
  shows "((b * N) mod (d * d) = 0 \<and> bdim b (b * N div (d * d)) \<noteq> None \<and> bdim N (d * d) \<noteq> None)
         \<longleftrightarrow> (N = d * d \<or> (d = 1 \<and> b \<le> 1) \<or> (N = 1 \<and> (b = 0 \<or> b = d * d)))"
proof -
  define D where "D = d * d"
  have D: "0 < D"
    using assms by (simp add: D_def)
  have D1: "D = 1 \<longleftrightarrow> d = 1"
    by (simp add: D_def)
  have "((b * N) mod D = 0 \<and> bdim b (b * N div D) \<noteq> None \<and> bdim N D \<noteq> None)
         \<longleftrightarrow> (N = D \<or> (D = 1 \<and> b \<le> 1) \<or> (N = 1 \<and> (b = 0 \<or> b = D)))"
  proof (cases "N = D")
    case True
    with D show ?thesis
      by (simp add: bdim_None_iff)
  next
    case nD: False
    show ?thesis
    proof (cases "D = 1")
      case True
      have "(b = b * N \<or> b = 1 \<or> b * N = 1) \<longleftrightarrow> b \<le> 1"
      proof
        assume "b = b * N \<or> b = 1 \<or> b * N = 1"
        with nD True show "b \<le> 1"
          by (auto dest: mult_eq_self_implies_10)
      next
        assume "b \<le> 1"
        then have "b = 0 \<or> b = 1" by auto
        then show "b = b * N \<or> b = 1 \<or> b * N = 1" by auto
      qed
      with True nD show ?thesis
        by (simp add: bdim_None_iff)
    next
      case D1': False
      show ?thesis
      proof (cases "N = 1")
        case True
        from D D1' have D2: "1 < D" by simp
        have "(b mod D = 0 \<and> (b = b div D \<or> b = 1 \<or> b div D = 1)) \<longleftrightarrow> (b = 0 \<or> b = D)"
        proof
          assume a: "b mod D = 0 \<and> (b = b div D \<or> b = 1 \<or> b div D = 1)"
          then consider "b = b div D" | "b = 1" | "b div D = 1" by blast
          then show "b = 0 \<or> b = D"
          proof cases
            case 1
            then show ?thesis
              using div_less_dividend[OF D2, of b] by (cases "b = 0") simp_all
          next
            case 2
            with a D2 show ?thesis by simp
          next
            case 3
            from a have "b = (b div D) * D"
              by (metis add.right_neutral div_mult_mod_eq)
            with 3 show ?thesis by simp
          qed
        next
          assume "b = 0 \<or> b = D"
          with D show "b mod D = 0 \<and> (b = b div D \<or> b = 1 \<or> b div D = 1)"
            by auto
        qed
        with True nD D1' show ?thesis
          by (simp add: bdim_None_iff)
      next
        case False
        with nD D1' show ?thesis
          by (simp add: bdim_None_iff)
      qed
    qed
  qed
  then show ?thesis
    unfolding D_def[symmetric] D1 .
qed

lemma tail_Inr:
  assumes "bdim (nrows gt) (nrows m) \<noteq> None" "bdim (ncols gt) (ncols m) \<noteq> None"
  shows "\<exists>v. bindE (t_mul gt m) (\<lambda>intersection. bindE (t_add gt m) (\<lambda>s. Inr (F intersection s)))
             = Inr v"
proof -
  from binop_Inr[OF assms] obtain x where "t_mul gt m = Inr x"
    unfolding t_mul_def by blast
  moreover from binop_Inr[OF assms] obtain y where "t_add gt m = Inr y"
    unfolding t_add_def by blast
  ultimately show ?thesis
    by (simp add: bindE_def)
qed

lemma tail_Inl:
  assumes "bdim (nrows gt) (nrows m) = None \<or> bdim (ncols gt) (ncols m) = None"
  shows "bindE (t_mul gt m) f = Inl InvalidArgument"
  using binop_Inl[OF assms, of "(*)"] by (simp add: t_mul_def bindE_def)

lemma reshape_fails:
  assumes "wf_tensor pred" "(nrows pred * ncols pred) mod (d * d) \<noteq> 0"
  shows "iou_bbox_mask pred t d = Inl InvalidArgument"
proof -
  have "length (concat (rows (K_cast (K_greater pred t)))) = nrows pred * ncols pred"
    using length_concat_wf[OF binarized_wf[OF assms(1), of t]]
    by (simp add: binarized_ncols nrows_def binarized_rows)
  with assms(2) show ?thesis
    by (simp add: iou_bbox_mask_def K_reshape3_def bindE_def)
qed

lemma iou_bbox_succeeds_iff:
  assumes "wf_tensor gt" "wf_tensor pred" "same_shape gt pred" "0 < d"
  shows "(\<exists>v. iou_bbox gt pred t d = Inr v) \<longleftrightarrow>
           (ncols gt = d * d \<or> (d = 1 \<and> nrows gt \<le> 1) \<or>
            (ncols gt = 1 \<and> (nrows gt = 0 \<or> nrows gt = d * d)))"
    and "iou_bbox gt pred t d = Inl InvalidArgument \<longleftrightarrow>
           \<not> (ncols gt = d * d \<or> (d = 1 \<and> nrows gt \<le> 1) \<or>
              (ncols gt = 1 \<and> (nrows gt = 0 \<or> nrows gt = d * d)))"
proof -
  let ?b = "nrows gt" and ?N = "ncols gt"
  define C where "C \<longleftrightarrow> (?N = d * d \<or> (d = 1 \<and> ?b \<le> 1) \<or> (?N = 1 \<and> (?b = 0 \<or> ?b = d * d)))"
  define A where "A \<longleftrightarrow> (?b * ?N) mod (d * d) = 0"
  define B where "B \<longleftrightarrow> bdim ?b (?b * ?N div (d * d)) \<noteq> None \<and> bdim ?N (d * d) \<noteq> None"
  have sc: "(A \<and> B) = C"
    unfolding A_def B_def C_def by (rule shape_condition[OF assms(4)])
  have s: "nrows pred = ?b" "ncols pred = ?N"
    using assms(3) by (simp_all add: same_shape_def)
  have r: "(C \<longrightarrow> (\<exists>v. iou_bbox gt pred t d = Inr v)) \<and>
           (\<not> C \<longrightarrow> iou_bbox gt pred t d = Inl InvalidArgument)"
  proof (cases A)
    case False
    then have "(nrows pred * ncols pred) mod (d * d) \<noteq> 0"
      by (simp add: A_def s)
    from reshape_fails[OF assms(2) this, of t]
    have "iou_bbox gt pred t d = Inl InvalidArgument"
      by (simp add: iou_bbox_def bindE_def)
    moreover from False sc have "\<not> C"
      by simp
    ultimately show ?thesis
      by simp
  next
    case True
    let ?Q = "chunks (d * d) (concat (rows pred))"
    let ?M = "Tensor (d * d) (map (proj_mask d t) ?Q)"
    from True have md: "(nrows pred * ncols pred) mod (d * d) = 0"
      by (simp add: A_def s)
    have m: "iou_bbox_mask pred t d = Inr ?M"
      by (rule iou_bbox_mask_general[OF assms(2,4) md])
    have "?b * ?N = (?b * ?N div (d * d)) * (d * d)"
      using True unfolding A_def by (metis add.right_neutral div_mult_mod_eq)
    then have "length (concat (rows pred)) = (?b * ?N div (d * d)) * (d * d)"
      using length_concat_wf[OF assms(2)] by (simp only: s)
    from chunks_length(1)[OF _ this] assms(4)
    have nm: "nrows ?M = ?b * ?N div (d * d)"
      by (simp add: nrows_def)
    have cm: "ncols ?M = d * d"
      by simp
    have e: "iou_bbox gt pred t d =
          bindE (t_mul gt ?M) (\<lambda>intersection. bindE (t_add gt ?M) (\<lambda>s.
            Inr (K_mean (v_div (K_sum1 intersection)
                   (map (\<lambda>u. K_epsilon + u) (K_sum1 (K_cast (K_greater s 0))))))))"
      by (simp add: iou_bbox_def m bindE_def)
    show ?thesis
    proof (cases C)
      case True
      with sc have B by simp
      then have "bdim ?b (nrows ?M) \<noteq> None" "bdim ?N (ncols ?M) \<noteq> None"
        unfolding nm cm B_def by simp_all
      from tail_Inr[OF this] have "\<exists>v. iou_bbox gt pred t d = Inr v"
        unfolding e .
      with True show ?thesis
        by simp
    next
      case False
      with sc \<open>A\<close> have "\<not> B" by simp
      then have "bdim ?b (nrows ?M) = None \<or> bdim ?N (ncols ?M) = None"
        unfolding nm cm B_def by simp
      from tail_Inl[OF this] have "iou_bbox gt pred t d = Inl InvalidArgument"
        unfolding e .
      with False show ?thesis
        by simp
    qed
  qed
  show "(\<exists>v. iou_bbox gt pred t d = Inr v) \<longleftrightarrow>
           (ncols gt = d * d \<or> (d = 1 \<and> nrows gt \<le> 1) \<or>
            (ncols gt = 1 \<and> (nrows gt = 0 \<or> nrows gt = d * d)))"
    unfolding C_def[symmetric] using r by (cases C) auto
  show "iou_bbox gt pred t d = Inl InvalidArgument \<longleftrightarrow>
           \<not> (ncols gt = d * d \<or> (d = 1 \<and> nrows gt \<le> 1) \<or>
              (ncols gt = 1 \<and> (nrows gt = 0 \<or> nrows gt = d * d)))"
    unfolding C_def[symmetric] using r by (cases C) auto
qed

section \<open>Claim about the shape check of the bounding-box metric\<close>

text \<open>
  C9, as amended. For gt and pred of one shape (batch, N) and input_dim \<ge> 1, \<open>iou_bbox\<close>
  succeeds when input_dim * input_dim = N. When input_dim * input_dim \<noteq> N it fails with
  InvalidArgument, at the reshape or at the product of gt with the mask, unless the
  inferred batch size of the reshape and broadcasting make the shapes fit: it succeeds
  exactly when input_dim * input_dim = N, or input_dim = 1 and batch \<le> 1, or N = 1 and
  batch is 0 or input_dim * input_dim. In particular it fails whenever
  input_dim * input_dim \<noteq> N, N \<noteq> 1 and input_dim \<noteq> 1.
\<close>

theorem iou_bbox_shape_check:
  assumes "wf_tensor gt" "wf_tensor pred" "same_shape gt pred" "0 < d"
  shows "(ncols gt = d * d \<longrightarrow> (\<exists>v. iou_bbox gt pred t d = Inr v)) \<and>
         (ncols gt \<noteq> d * d \<and> ncols gt \<noteq> 1 \<and> d \<noteq> 1 \<longrightarrow>
            iou_bbox gt pred t d = Inl InvalidArgument) \<and>
         ((\<exists>v. iou_bbox gt pred t d = Inr v) \<longleftrightarrow>
            (ncols gt = d * d \<or> (d = 1 \<and> nrows gt \<le> 1) \<or>
             (ncols gt = 1 \<and> (nrows gt = 0 \<or> nrows gt = d * d)))) \<and>
         (iou_bbox gt pred t d = Inl InvalidArgument \<longleftrightarrow>
            \<not> (ncols gt = d * d \<or> (d = 1 \<and> nrows gt \<le> 1) \<or>
               (ncols gt = 1 \<and> (nrows gt = 0 \<or> nrows gt = d * d))))"
  using iou_bbox_succeeds_iff[OF assms, of t] by auto

theorem iou_bbox_shape_check_witness:
  "wf_tensor (Tensor 4 [[1, 1, 0, 0 :: real]]) \<and>
   wf_tensor (Tensor 4 [[9 / 10, 1 / 10, 2 / 10, 8 / 10 :: real]]) \<and>
   same_shape (Tensor 4 [[1, 1, 0, 0 :: real]]) (Tensor 4 [[9 / 10, 1 / 10, 2 / 10, 8 / 10 :: real]]) \<and>
   (0 :: nat) < 2 \<and> ncols (Tensor 4 [[1, 1, 0, 0 :: real]]) = 2 * 2 \<and>
   (\<exists>v. iou_bbox (Tensor 4 [[1, 1, 0, 0]]) (Tensor 4 [[9 / 10, 1 / 10, 2 / 10, 8 / 10]]) (1 / 2) 2
          = Inr v) \<and>
   wf_tensor (Tensor 3 [[0, 1, 1], [1, 1, 1], [1, 0, 1 :: real]]) \<and>
   wf_tensor (Tensor 3 [[1 / 10, 7 / 10, 2 / 10], [9 / 10, 1 / 10, 3 / 10], [4 / 10, 5 / 10, 8 / 10 :: real]]) \<and>
   same_shape (Tensor 3 [[0, 1, 1], [1, 1, 1], [1, 0, 1 :: real]])
     (Tensor 3 [[1 / 10, 7 / 10, 2 / 10], [9 / 10, 1 / 10, 3 / 10], [4 / 10, 5 / 10, 8 / 10 :: real]]) \<and>
   (0 :: nat) < 3 \<and> ncols (Tensor 3 [[0, 1, 1], [1, 1, 1], [1, 0, 1 :: real]]) \<noteq> 3 * 3 \<and>
   ncols (Tensor 3 [[0, 1, 1], [1, 1, 1], [1, 0, 1 :: real]]) \<noteq> 1 \<and> (3 :: nat) \<noteq> 1 \<and>
   iou_bbox (Tensor 3 [[0, 1, 1], [1, 1, 1], [1, 0, 1]])
     (Tensor 3 [[1 / 10, 7 / 10, 2 / 10], [9 / 10, 1 / 10, 3 / 10], [4 / 10, 5 / 10, 8 / 10]]) (6 / 10) 3
     = Inl InvalidArgument"
proof -
  let ?G = "Tensor 4 [[1, 1, 0, 0 :: real]]"
  let ?P = "Tensor 4 [[9 / 10, 1 / 10, 2 / 10, 8 / 10 :: real]]"
  let ?Y = "Tensor 3 [[0, 1, 1], [1, 1, 1], [1, 0, 1 :: real]]"
  let ?X = "Tensor 3 [[1 / 10, 7 / 10, 2 / 10], [9 / 10, 1 / 10, 3 / 10], [4 / 10, 5 / 10, 8 / 10 :: real]]"
  have h: "wf_tensor ?G" "wf_tensor ?P" "same_shape ?G ?P" "(0 :: nat) < 2"
    by (simp_all add: wf_tensor_def same_shape_def nrows_def)
  have k: "wf_tensor ?Y" "wf_tensor ?X" "same_shape ?Y ?X" "(0 :: nat) < 3"
    by (simp_all add: wf_tensor_def same_shape_def nrows_def)
  from iou_bbox_shape_check[OF h, of "1 / 2"]
  have 1: "\<exists>v. iou_bbox ?G ?P (1 / 2) 2 = Inr v"
    by simp
  from iou_bbox_shape_check[OF k, of "6 / 10"]
  have 2: "iou_bbox ?Y ?X (6 / 10) 3 = Inl InvalidArgument"
    by simp
  from h k 1 2 show ?thesis
    by simp
qed

theorem iou_bbox_broadcasts_when_N_is_1:
  "wf_tensor (Tensor 1 [[1], [0], [1], [1 :: real]]) \<and>
   wf_tensor (Tensor 1 [[1], [0], [0], [1 :: real]]) \<and>
   same_shape (Tensor 1 [[1], [0], [1], [1 :: real]]) (Tensor 1 [[1], [0], [0], [1 :: real]]) \<and>
   (2 :: nat) * 2 \<noteq> ncols (Tensor 1 [[1], [0], [1], [1 :: real]]) \<and>
   iou_bbox (Tensor 1 [[1], [0], [1], [1]]) (Tensor 1 [[1], [0], [0], [1]]) (1 / 2) 2
     = Inr (Fin (3 / (4 + K_epsilon)))"
  by code_simp

end
